theory Spec2Isabelle
  imports Main "HOL-Library.List_Lexorder" "HOL-Library.Multiset"
begin

section \<open>Python values: bytes, strings, exceptions\<close>

text \<open>
  A \<^verbatim>\<open>bytes\<close> object is a list of 8-bit characters, so \<^verbatim>\<open>b"Hello World"\<close> is
  \<open>''Hello World''\<close>. A \<^verbatim>\<open>str\<close> is a list of Unicode code points; Python compares
  and sorts strings code point by code point, which is the lexicographic order on
  \<open>nat list\<close>. The literal \<^verbatim>\<open>"seed"\<close> is \<open>ascii ''seed''\<close>.
\<close>

type_synonym bytes = "char list"
type_synonym pystr = "nat list"

definition ascii :: "string \<Rightarrow> pystr" where
  "ascii s = map of_char s"

text \<open>
  The exception classes the program raises or lets through. \<open>errors.py\<close> declares
  \<^verbatim>\<open>PipelineError(Exception)\<close>, \<^verbatim>\<open>InputValidationError(PipelineError)\<close> and
  \<^verbatim>\<open>ConfigError(PipelineError)\<close>; the others are built-in classes. Messages are
  dropped: the program only prints them.
\<close>

datatype exc =
    PipelineError
  | InputValidationError
  | ConfigError
  | ValueError
  | UnicodeDecodeError
  | UnicodeEncodeError
  | TypeError
  | KeyError
  | OSError
  | JSONDecodeError

fun exc_name :: "exc \<Rightarrow> string" where
  "exc_name PipelineError = ''PipelineError''"
| "exc_name InputValidationError = ''InputValidationError''"
| "exc_name ConfigError = ''ConfigError''"
| "exc_name ValueError = ''ValueError''"
| "exc_name UnicodeDecodeError = ''UnicodeDecodeError''"
| "exc_name UnicodeEncodeError = ''UnicodeEncodeError''"
| "exc_name TypeError = ''TypeError''"
| "exc_name KeyError = ''KeyError''"
| "exc_name OSError = ''OSError''"
| "exc_name JSONDecodeError = ''JSONDecodeError''"

text \<open>\<^verbatim>\<open>isinstance(e, PipelineError)\<close>, from the class statements of \<open>errors.py\<close>.\<close>

fun is_PipelineError :: "exc \<Rightarrow> bool" where
  "is_PipelineError PipelineError = True"
| "is_PipelineError InputValidationError = True"
| "is_PipelineError ConfigError = True"
| "is_PipelineError _ = False"

text \<open>
  The values a Python object of this program can be: what \<^verbatim>\<open>json.loads\<close> builds
  (\<^verbatim>\<open>None\<close>, \<^verbatim>\<open>bool\<close>, \<^verbatim>\<open>int\<close>, \<^verbatim>\<open>float\<close>, \<^verbatim>\<open>str\<close>, \<^verbatim>\<open>list\<close>, \<^verbatim>\<open>dict\<close> with
  string keys) and \<^verbatim>\<open>bytes\<close>, which JSON cannot represent. A dict is the list of its
  items in insertion order; its keys are distinct. A float is carried as the text
  \<^verbatim>\<open>json.dumps\<close> prints for it (\<^verbatim>\<open>float.__repr__\<close>, or \<^verbatim>\<open>NaN\<close>, \<^verbatim>\<open>Infinity\<close>,
  \<^verbatim>\<open>-Infinity\<close>).
\<close>

datatype pyval =
    PNone
  | PBool bool
  | PInt int
  | PFloat pystr
  | PStr pystr
  | PBytes bytes
  | PList "pyval list"
  | PDict "(pystr \<times> pyval) list"

type_synonym 'v dict = "(pystr \<times> 'v) list"

text \<open>\<^verbatim>\<open>k in d\<close> and \<^verbatim>\<open>d[k]\<close>.\<close>

definition dict_has :: "'v dict \<Rightarrow> pystr \<Rightarrow> bool" where
  "dict_has d k = (k \<in> fst ` set d)"

definition dict_get :: "'v dict \<Rightarrow> pystr \<Rightarrow> exc + 'v" where
  "dict_get d k = (case map_of d k of None \<Rightarrow> Inl KeyError | Some v \<Rightarrow> Inr v)"

text \<open>
  The standard-library functions whose tables are not part of the repository, as
  fields of one record: the SHA-256 digest in lowercase hex, \<^verbatim>\<open>json.loads\<close>, and
  the Unicode case mappings behind \<^verbatim>\<open>str.upper\<close> and \<^verbatim>\<open>str.lower\<close> for text with
  a non-ASCII character.
\<close>

record pylib =
  sha256_hex :: "bytes \<Rightarrow> pystr"
  json_loads :: "pystr \<Rightarrow> exc + pyval"
  unicode_upper :: "pystr \<Rightarrow> pystr"
  unicode_lower :: "pystr \<Rightarrow> pystr"

section \<open>The UTF-8 codec\<close>

text \<open>
  \<^verbatim>\<open>bytes.decode("utf-8", errors="strict")\<close>. \<open>lead_info n\<close> gives, for a leading
  byte \<open>n\<close>, the number of continuation bytes, the payload bits of the leading byte
  and the range allowed for the first continuation byte (which excludes overlong
  forms, surrogates and code points above U+10FFFF); \<open>None\<close> is an invalid start byte.
\<close>

definition lead_info :: "nat \<Rightarrow> (nat \<times> nat \<times> nat \<times> nat) option" where
  "lead_info n =
     (if n < 128 then Some (0, n, 128, 191)
      else if 194 \<le> n \<and> n \<le> 223 then Some (1, n - 192, 128, 191)
      else if n = 224 then Some (2, 0, 160, 191)
      else if n = 237 then Some (2, 13, 128, 159)
      else if 225 \<le> n \<and> n \<le> 239 then Some (2, n - 224, 128, 191)
      else if n = 240 then Some (3, 0, 144, 191)
      else if 241 \<le> n \<and> n \<le> 243 then Some (3, n - 240, 128, 191)
      else if n = 244 then Some (3, 4, 128, 143)
      else None)"

fun conts_ok :: "nat \<Rightarrow> nat \<Rightarrow> nat list \<Rightarrow> bool" where
  "conts_ok lo hi [] = True"
| "conts_ok lo hi (c # cs) = (lo \<le> c \<and> c \<le> hi \<and> list_all (\<lambda>d. 128 \<le> d \<and> d \<le> 191) cs)"

function utf8_decode :: "bytes \<Rightarrow> exc + pystr" where
  "utf8_decode [] = Inr []"
| "utf8_decode (b # bs) =
     (case lead_info (of_char b) of
        None \<Rightarrow> Inl UnicodeDecodeError
      | Some (k, payload, lo, hi) \<Rightarrow>
          (let cs = map of_char (take k bs) in
           if length cs = k \<and> conts_ok lo hi cs
           then (case utf8_decode (drop k bs) of
                   Inl e \<Rightarrow> Inl e
                 | Inr t \<Rightarrow> Inr (foldl (\<lambda>a c. a * 64 + (c - 128)) payload cs # t))
           else Inl UnicodeDecodeError))"
  by pat_completeness auto
termination
  by (relation "measure length") auto

declare utf8_decode.simps [simp del]

text \<open>
  \<^verbatim>\<open>str.encode("utf-8")\<close>: a surrogate code point cannot be encoded
  (\<^verbatim>\<open>UnicodeEncodeError\<close>); a \<^verbatim>\<open>str\<close> holds no code point above U+10FFFF.
\<close>

definition utf8_encode_cp :: "nat \<Rightarrow> bytes option" where
  "utf8_encode_cp c =
     (if c < 128 then Some [char_of c]
      else if c < 2048 then Some [char_of (192 + c div 64), char_of (128 + c mod 64)]
      else if 55296 \<le> c \<and> c \<le> 57343 then None
      else if c < 65536 then
        Some [char_of (224 + c div 4096), char_of (128 + (c div 64) mod 64),
              char_of (128 + c mod 64)]
      else if c < 1114112 then
        Some [char_of (240 + c div 262144), char_of (128 + (c div 4096) mod 64),
              char_of (128 + (c div 64) mod 64), char_of (128 + c mod 64)]
      else None)"

fun utf8_encode :: "pystr \<Rightarrow> exc + bytes" where
  "utf8_encode [] = Inr []"
| "utf8_encode (c # cs) =
     (case utf8_encode_cp c of
        None \<Rightarrow> Inl UnicodeEncodeError
      | Some bs \<Rightarrow> (case utf8_encode cs of Inl e \<Rightarrow> Inl e | Inr r \<Rightarrow> Inr (bs @ r)))"

text \<open>
  \<^verbatim>\<open>str.upper()\<close> and \<^verbatim>\<open>str.lower()\<close>: CPython maps an all-ASCII string letter by
  letter and sends any other string through the Unicode case mapping.
\<close>

definition ascii_upper_cp :: "nat \<Rightarrow> nat" where
  "ascii_upper_cp c = (if 97 \<le> c \<and> c \<le> 122 then c - 32 else c)"

definition ascii_lower_cp :: "nat \<Rightarrow> nat" where
  "ascii_lower_cp c = (if 65 \<le> c \<and> c \<le> 90 then c + 32 else c)"

definition str_upper :: "'a pylib_scheme \<Rightarrow> pystr \<Rightarrow> pystr" where
  "str_upper lib s =
     (if list_all (\<lambda>c. c < 128) s then map ascii_upper_cp s else unicode_upper lib s)"

definition str_lower :: "'a pylib_scheme \<Rightarrow> pystr \<Rightarrow> pystr" where
  "str_lower lib s =
     (if list_all (\<lambda>c. c < 128) s then map ascii_lower_cp s else unicode_lower lib s)"

section \<open>processing\_layer.py\<close>

record ProcessedArtifact =
  items :: "bytes dict"

definition transform_bytes :: "'a pylib_scheme \<Rightarrow> bytes \<Rightarrow> pyval \<Rightarrow> exc + bytes" where
  "transform_bytes lib data transform =
     (if transform = PStr (ascii ''noop'') then Inr data
      else (case utf8_decode data of
              Inl e \<Rightarrow> Inl e
            | Inr text \<Rightarrow>
                if transform = PStr (ascii ''upper'') then utf8_encode (str_upper lib text)
                else if transform = PStr (ascii ''lower'') then utf8_encode (str_lower lib text)
                else Inl ValueError))"

text \<open>
  The dict comprehension of \<open>process\<close>: the items are visited in insertion order and
  the first exception ends the comprehension.
\<close>

fun dict_comp :: "('v \<Rightarrow> exc + 'w) \<Rightarrow> 'v dict \<Rightarrow> exc + 'w dict" where
  "dict_comp f [] = Inr []"
| "dict_comp f ((k, v) # kvs) =
     (case f v of
        Inl e \<Rightarrow> Inl e
      | Inr w \<Rightarrow> (case dict_comp f kvs of Inl e \<Rightarrow> Inl e | Inr r \<Rightarrow> Inr ((k, w) # r)))"

definition process :: "'a pylib_scheme \<Rightarrow> bytes dict \<Rightarrow> pyval dict \<Rightarrow> exc + ProcessedArtifact" where
  "process lib raw_inputs parameters =
     (if \<not> dict_has parameters (ascii ''transform'') then Inl ValueError
      else if \<not> dict_has parameters (ascii ''seed'') then Inl ValueError
      else (case dict_get parameters (ascii ''transform'') of
              Inl e \<Rightarrow> Inl e
            | Inr transform \<Rightarrow>
                (case dict_comp (\<lambda>data. transform_bytes lib data transform) raw_inputs of
                   Inl e \<Rightarrow> Inl e
                 | Inr processed \<Rightarrow> Inr \<lparr>items = processed\<rparr>)))"

section \<open>utils.py\<close>

text \<open>
  A \<^verbatim>\<open>hashlib.sha256()\<close> object is the bytes fed to it so far: \<^verbatim>\<open>update\<close> appends
  and \<^verbatim>\<open>hexdigest\<close> is the digest of everything fed.
\<close>

type_synonym hasher = bytes

definition hasher_new :: hasher where
  "hasher_new = []"

definition hasher_update :: "hasher \<Rightarrow> bytes \<Rightarrow> hasher" where
  "hasher_update h data = h @ data"

definition hexdigest :: "'a pylib_scheme \<Rightarrow> hasher \<Rightarrow> pystr" where
  "hexdigest lib h = sha256_hex lib h"

definition sha256_bytes :: "'a pylib_scheme \<Rightarrow> bytes \<Rightarrow> pystr" where
  "sha256_bytes lib data = hexdigest lib (hasher_update hasher_new data)"

text \<open>
  The file system is a map from a resolved path to what is there. \<open>sha256_file\<close>
  reads the file in chunks of \<open>1024 * 1024\<close> bytes until \<^verbatim>\<open>f.read\<close> returns
  \<^verbatim>\<open>b""\<close>, feeding each chunk to the hasher.
\<close>

datatype fnode = File bytes | Dir

type_synonym filesystem = "pystr \<Rightarrow> fnode option"

function read_chunks :: "nat \<Rightarrow> bytes \<Rightarrow> bytes list" where
  "read_chunks n bs =
     (if n = 0 \<or> bs = [] then [] else take n bs # read_chunks n (drop n bs))"
  by pat_completeness auto
termination
  by (relation "measure (\<lambda>(n, bs). length bs)") auto

declare read_chunks.simps [simp del]

definition sha256_file :: "'a pylib_scheme \<Rightarrow> filesystem \<Rightarrow> pystr \<Rightarrow> exc + pystr" where
  "sha256_file lib files path =
     (case files path of
        Some (File bs) \<Rightarrow>
          Inr (hexdigest lib
                 (fold (\<lambda>chunk h. hasher_update h chunk) (read_chunks (1024 * 1024) bs)
                    hasher_new))
      | _ \<Rightarrow> Inl OSError)"

text \<open>
  \<^verbatim>\<open>json.dumps(obj, sort_keys=True, separators=(",", ":"), ensure_ascii=False)\<close>.
  A string is quoted with the escapes of \<^verbatim>\<open>json.encoder\<close>: the quote, the backslash,
  the short forms of backspace, form feed, newline, carriage return and tab, and
  \<^verbatim>\<open>\u00XX\<close> for every other character below U+0020. The items of a dict are
  sorted; its keys are distinct, so the order of two items is the order of their
  keys. An object that is none of the JSON types raises \<^verbatim>\<open>TypeError\<close>.
\<close>

definition hex_digit :: "nat \<Rightarrow> nat" where
  "hex_digit n = (if n < 10 then 48 + n else 87 + n)"

definition json_escape_cp :: "nat \<Rightarrow> pystr" where
  "json_escape_cp c =
     (if c = 34 then ascii [CHR 0x5C, CHR 0x22]
      else if c = 92 then ascii [CHR 0x5C, CHR 0x5C]
      else if c = 8 then ascii [CHR 0x5C, CHR ''b'']
      else if c = 12 then ascii [CHR 0x5C, CHR ''f'']
      else if c = 10 then ascii [CHR 0x5C, CHR ''n'']
      else if c = 13 then ascii [CHR 0x5C, CHR ''r'']
      else if c = 9 then ascii [CHR 0x5C, CHR ''t'']
      else if c < 32 then
        ascii [CHR 0x5C, CHR ''u'', CHR ''0'', CHR ''0''] @ [hex_digit (c div 16), hex_digit (c mod 16)]
      else [c])"

definition json_string :: "pystr \<Rightarrow> pystr" where
  "json_string s = [34] @ concat (map json_escape_cp s) @ [34]"

function nat_repr :: "nat \<Rightarrow> pystr" where
  "nat_repr n = (if n < 10 then [48 + n] else nat_repr (n div 10) @ [48 + n mod 10])"
  by pat_completeness auto
termination
  by (relation "measure id") auto

declare nat_repr.simps [simp del]

definition int_repr :: "int \<Rightarrow> pystr" where
  "int_repr i = (if i < 0 then 45 # nat_repr (nat (- i)) else nat_repr (nat i))"

fun sequence :: "(exc + 'a) list \<Rightarrow> exc + 'a list" where
  "sequence [] = Inr []"
| "sequence (r # rs) =
     (case r of
        Inl e \<Rightarrow> Inl e
      | Inr x \<Rightarrow> (case sequence rs of Inl e \<Rightarrow> Inl e | Inr xs \<Rightarrow> Inr (x # xs)))"

fun join :: "pystr \<Rightarrow> pystr list \<Rightarrow> pystr" where
  "join sep [] = []"
| "join sep [x] = x"
| "join sep (x # y # ys) = x @ sep @ join sep (y # ys)"

fun json_encode :: "pyval \<Rightarrow> exc + pystr" where
  "json_encode PNone = Inr (ascii ''null'')"
| "json_encode (PBool b) = Inr (if b then ascii ''true'' else ascii ''false'')"
| "json_encode (PInt i) = Inr (int_repr i)"
| "json_encode (PFloat r) = Inr r"
| "json_encode (PStr s) = Inr (json_string s)"
| "json_encode (PBytes b) = Inl TypeError"
| "json_encode (PList xs) =
     (case sequence (map json_encode xs) of
        Inl e \<Rightarrow> Inl e
      | Inr parts \<Rightarrow> Inr (ascii ''['' @ join (ascii '','') parts @ ascii '']''))"
| "json_encode (PDict d) =
     (case sequence
             (map (\<lambda>(k, v). case json_encode v of
                                Inl e \<Rightarrow> Inl e
                              | Inr s \<Rightarrow> Inr (json_string k @ ascii '':'' @ s))
                (sort_key fst d)) of
        Inl e \<Rightarrow> Inl e
      | Inr parts \<Rightarrow> Inr (ascii ''{'' @ join (ascii '','') parts @ ascii ''}''))"

definition canonical_json_dumps :: "pyval \<Rightarrow> exc + pystr" where
  "canonical_json_dumps obj = json_encode obj"

definition sha256_json :: "'a pylib_scheme \<Rightarrow> pyval \<Rightarrow> exc + pystr" where
  "sha256_json lib obj =
     (case canonical_json_dumps obj of
        Inl e \<Rightarrow> Inl e
      | Inr text \<Rightarrow>
          (case utf8_encode text of
             Inl e \<Rightarrow> Inl e
           | Inr data \<Rightarrow> Inr (sha256_bytes lib data)))"

section \<open>input\_layer.py\<close>

text \<open>
  A \<^verbatim>\<open>Path\<close> is its string. What a run can observe of its surroundings is one
  record: the files, what \<^verbatim>\<open>Path(p).resolve()\<close> answers, the clock and the
  descriptors of the interpreter that \<open>build_provenance\<close> reads, and what the
  operating system answers when \<open>write_outputs\<close> writes (\<open>None\<close>: every write
  succeeded). Every path can be resolved and examined here: a path on which
  \<^verbatim>\<open>resolve()\<close>, \<^verbatim>\<open>exists()\<close> or \<^verbatim>\<open>is_file()\<close> themselves raise (an embedded NUL,
  a name too long, a directory that may not be searched) is outside this record.
\<close>

record LoadedInputs =
  input_paths :: "pystr list"
  input_hashes :: "pystr dict"
  config :: "pyval dict"
  config_hash :: pystr
  pipeline_version :: pystr

record Provenance =
  data :: "pyval dict"

record world =
  files :: filesystem
  resolve :: "pystr \<Rightarrow> pystr"
  now_utc :: pystr
  python_version :: pystr
  platform_name :: pystr
  implementation :: pystr
  write_result :: "pystr \<Rightarrow> ProcessedArtifact \<Rightarrow> Provenance \<Rightarrow> exc option"

text \<open>The file operations of the input layer, in the order they happen.\<close>

datatype event = Exists pystr | IsFile pystr | ReadText pystr | ReadBinary pystr

definition path_exists :: "filesystem \<Rightarrow> pystr \<Rightarrow> bool" where
  "path_exists fs p = (fs p \<noteq> None)"

definition is_file :: "filesystem \<Rightarrow> pystr \<Rightarrow> bool" where
  "is_file fs p = (case fs p of Some (File bs) \<Rightarrow> True | _ \<Rightarrow> False)"

fun validate_each :: "filesystem \<Rightarrow> pystr list \<Rightarrow> (exc + unit) \<times> event list" where
  "validate_each fs [] = (Inr (), [])"
| "validate_each fs (p # ps) =
     (if \<not> path_exists fs p then (Inl InputValidationError, [Exists p])
      else if \<not> is_file fs p then (Inl InputValidationError, [Exists p, IsFile p])
      else (case validate_each fs ps of (r, t) \<Rightarrow> (r, Exists p # IsFile p # t)))"

definition validate_paths :: "filesystem \<Rightarrow> pystr list \<Rightarrow> (exc + unit) \<times> event list" where
  "validate_paths fs paths =
     (if paths = [] then (Inl InputValidationError, []) else validate_each fs paths)"

text \<open>
  \<^verbatim>\<open>Path.read_text(encoding="utf-8")\<close> decodes the file and, as every text-mode read,
  turns \<^verbatim>\<open>\r\n\<close> and \<^verbatim>\<open>\r\<close> into \<^verbatim>\<open>\n\<close>.
\<close>

fun universal_newlines :: "pystr \<Rightarrow> pystr" where
  "universal_newlines [] = []"
| "universal_newlines [c] = [if c = 13 then 10 else c]"
| "universal_newlines (c # d # cs) =
     (if c = 13 \<and> d = 10 then 10 # universal_newlines cs
      else if c = 13 then 10 # universal_newlines (d # cs)
      else c # universal_newlines (d # cs))"

definition read_text :: "filesystem \<Rightarrow> pystr \<Rightarrow> exc + pystr" where
  "read_text fs p =
     (case fs p of
        Some (File bs) \<Rightarrow>
          (case utf8_decode bs of Inl e \<Rightarrow> Inl e | Inr t \<Rightarrow> Inr (universal_newlines t))
      | _ \<Rightarrow> Inl OSError)"

text \<open>\<^verbatim>\<open>isinstance(v, int)\<close>: \<^verbatim>\<open>bool\<close> is a subclass of \<^verbatim>\<open>int\<close>.\<close>

fun isinstance_int :: "pyval \<Rightarrow> bool" where
  "isinstance_int (PInt i) = True"
| "isinstance_int (PBool b) = True"
| "isinstance_int _ = False"

text \<open>The checks of \<open>_load_config\<close> on the parsed value, from \<^verbatim>\<open>isinstance(cfg, dict)\<close> on.\<close>

definition check_config :: "pyval \<Rightarrow> exc + pyval dict" where
  "check_config cfg =
     (case cfg of
        PDict d \<Rightarrow>
          (let required_keys = [ascii ''transform'', ascii ''seed''];
               missing = filter (\<lambda>k. \<not> dict_has d k) required_keys
           in if missing \<noteq> [] then Inl ConfigError
              else (case dict_get d (ascii ''transform'') of
                      Inl e \<Rightarrow> Inl e
                    | Inr t \<Rightarrow>
                        if \<not> List.member
                               [PStr (ascii ''upper''), PStr (ascii ''lower''), PStr (ascii ''noop'')] t
                        then Inl ConfigError
                        else (case dict_get d (ascii ''seed'') of
                                Inl e \<Rightarrow> Inl e
                              | Inr sd \<Rightarrow>
                                  if \<not> isinstance_int sd then Inl ConfigError else Inr d)))
      | _ \<Rightarrow> Inl ConfigError)"

text \<open>
  \<open>_load_config\<close>. The body of its \<^verbatim>\<open>try\<close> reads the text and parses it;
  \<^verbatim>\<open>except Exception\<close> turns every failure of the two into \<^verbatim>\<open>ConfigError\<close>.
\<close>

definition read_and_parse :: "'a pylib_scheme \<Rightarrow> filesystem \<Rightarrow> pystr \<Rightarrow> exc + pyval" where
  "read_and_parse lib fs config_path =
     (case read_text fs config_path of
        Inl e \<Rightarrow> Inl e
      | Inr raw \<Rightarrow> json_loads lib raw)"

definition load_config ::
  "'a pylib_scheme \<Rightarrow> filesystem \<Rightarrow> pystr \<Rightarrow> (exc + pyval dict) \<times> event list" where
  "load_config lib fs config_path =
     (if \<not> path_exists fs config_path then (Inl ConfigError, [Exists config_path])
      else if \<not> is_file fs config_path
        then (Inl ConfigError, [Exists config_path, IsFile config_path])
      else (case read_and_parse lib fs config_path of
              Inl e \<Rightarrow>
                (Inl ConfigError, [Exists config_path, IsFile config_path, ReadText config_path])
            | Inr cfg \<Rightarrow>
                (check_config cfg,
                 [Exists config_path, IsFile config_path, ReadText config_path])))"

text \<open>
  \<^verbatim>\<open>str.strip()\<close> removes the characters of \<^verbatim>\<open>str.isspace\<close> from both ends.
\<close>

definition py_isspace :: "nat \<Rightarrow> bool" where
  "py_isspace c =
     ((9 \<le> c \<and> c \<le> 13) \<or> (28 \<le> c \<and> c \<le> 32) \<or> c = 133 \<or> c = 160 \<or> c = 5760
      \<or> (8192 \<le> c \<and> c \<le> 8202) \<or> c = 8232 \<or> c = 8233 \<or> c = 8239 \<or> c = 8287
      \<or> c = 12288)"

definition strip :: "pystr \<Rightarrow> pystr" where
  "strip s = rev (dropWhile py_isspace (rev (dropWhile py_isspace s)))"

text \<open>
  \<^verbatim>\<open>d[k] = v\<close>: a key already in the dict keeps its place and takes the new value.
  The comprehension \<^verbatim>\<open>{str(p): sha256_file(p) for p in paths}\<close> stores one path
  after the other.
\<close>

fun dict_set :: "'v dict \<Rightarrow> pystr \<Rightarrow> 'v \<Rightarrow> 'v dict" where
  "dict_set [] k v = [(k, v)]"
| "dict_set ((k', v') # d) k v =
     (if k' = k then (k, v) # d else (k', v') # dict_set d k v)"

fun hash_inputs ::
  "'a pylib_scheme \<Rightarrow> filesystem \<Rightarrow> pystr list \<Rightarrow> pystr dict \<Rightarrow> (exc + pystr dict) \<times> event list"
where
  "hash_inputs lib fs [] acc = (Inr acc, [])"
| "hash_inputs lib fs (p # ps) acc =
     (case sha256_file lib fs p of
        Inl e \<Rightarrow> (Inl e, [ReadBinary p])
      | Inr h \<Rightarrow>
          (case hash_inputs lib fs ps (dict_set acc p h) of
             (r, t) \<Rightarrow> (r, ReadBinary p # t)))"

definition load_validate_hash ::
  "'a pylib_scheme \<Rightarrow> 'b world_scheme \<Rightarrow> pystr list \<Rightarrow> pystr \<Rightarrow> pystr
     \<Rightarrow> (exc + LoadedInputs) \<times> event list" where
  "load_validate_hash lib w input_files config_file version =
     (if strip version = [] then (Inl InputValidationError, [])
      else
        let paths = map (resolve w) input_files in
        case validate_paths (files w) paths of
          (Inl e, t1) \<Rightarrow> (Inl e, t1)
        | (Inr u, t1) \<Rightarrow>
            let cfg_path = resolve w config_file in
            (case load_config lib (files w) cfg_path of
               (Inl e, t2) \<Rightarrow> (Inl e, t1 @ t2)
             | (Inr cfg, t2) \<Rightarrow>
                 (case hash_inputs lib (files w) paths [] of
                    (Inl e, t3) \<Rightarrow> (Inl e, t1 @ t2 @ t3)
                  | (Inr hashes, t3) \<Rightarrow>
                      (case sha256_json lib (PDict cfg) of
                         Inl e \<Rightarrow> (Inl e, t1 @ t2 @ t3)
                       | Inr chash \<Rightarrow>
                           (Inr \<lparr>input_paths = paths, input_hashes = hashes, config = cfg,
                                 config_hash = chash, pipeline_version = strip version\<rparr>,
                            t1 @ t2 @ t3)))))"

section \<open>provenance\_layer.py\<close>

text \<open>
  The loop of \<open>_compute_run_id\<close> over \<^verbatim>\<open>sorted(input_hashes.keys())\<close>: each path is
  encoded and fed, then its hash is looked up, encoded and fed.
\<close>

fun feed_inputs :: "pystr dict \<Rightarrow> pystr list \<Rightarrow> hasher \<Rightarrow> exc + hasher" where
  "feed_inputs d [] h = Inr h"
| "feed_inputs d (path # ps) h =
     (case utf8_encode path of
        Inl e \<Rightarrow> Inl e
      | Inr pb \<Rightarrow>
          (case dict_get d path of
             Inl e \<Rightarrow> Inl e
           | Inr hv \<Rightarrow>
               (case utf8_encode hv of
                  Inl e \<Rightarrow> Inl e
                | Inr hb \<Rightarrow> feed_inputs d ps (hasher_update (hasher_update h pb) hb))))"

definition compute_run_id :: "'a pylib_scheme \<Rightarrow> pystr dict \<Rightarrow> pystr \<Rightarrow> pystr \<Rightarrow> exc + pystr" where
  "compute_run_id lib hashes chash version =
     (case feed_inputs hashes (sort (map fst hashes)) hasher_new of
        Inl e \<Rightarrow> Inl e
      | Inr h1 \<Rightarrow>
          (case utf8_encode chash of
             Inl e \<Rightarrow> Inl e
           | Inr cb \<Rightarrow>
               (case utf8_encode version of
                  Inl e \<Rightarrow> Inl e
                | Inr vb \<Rightarrow> Inr (hexdigest lib (hasher_update (hasher_update h1 cb) vb)))))"

text \<open>
  \<open>build_provenance\<close> reads the clock and the interpreter's descriptors, computes
  the run identifier and builds the dict. \<^verbatim>\<open>sorted(input_hashes.items())\<close> orders
  the items by their keys, which are distinct.
\<close>

definition build_provenance ::
  "'a pylib_scheme \<Rightarrow> 'b world_scheme \<Rightarrow> pystr dict \<Rightarrow> pystr \<Rightarrow> pystr \<Rightarrow> pyval dict
     \<Rightarrow> exc + Provenance" where
  "build_provenance lib w hashes chash version parameters =
     (let ts = now_utc w;
          env = [(ascii ''python_version'', PStr (python_version w)),
                 (ascii ''platform'', PStr (platform_name w)),
                 (ascii ''implementation'', PStr (implementation w))]
      in case compute_run_id lib hashes chash version of
           Inl e \<Rightarrow> Inl e
         | Inr run_id \<Rightarrow>
             Inr \<lparr>data =
               [(ascii ''run_id'', PStr run_id),
                (ascii ''pipeline_version'', PStr version),
                (ascii ''timestamp_utc'', PStr ts),
                (ascii ''inputs'',
                   PList (map (\<lambda>(p, h). PDict [(ascii ''path'', PStr p), (ascii ''sha256'', PStr h)])
                            (sort_key fst hashes))),
                (ascii ''config_sha256'', PStr chash),
                (ascii ''parameters'', PDict parameters),
                (ascii ''execution_environment'', PDict env),
                (ascii ''deterministic_scope'', PStr (ascii ''inputs + config + pipeline_version''))]\<rparr>)"

section \<open>run.py\<close>

record args =
  arg_inputs :: "pystr list"
  arg_config :: pystr
  arg_version :: pystr
  arg_out :: pystr

text \<open>\<open>_read_inputs\<close>: \<^verbatim>\<open>{str(p): Path(p).read_bytes() for p in paths}\<close>.\<close>

fun read_inputs :: "filesystem \<Rightarrow> pystr list \<Rightarrow> bytes dict \<Rightarrow> exc + bytes dict" where
  "read_inputs fs [] acc = Inr acc"
| "read_inputs fs (p # ps) acc =
     (case fs p of
        Some (File bs) \<Rightarrow> read_inputs fs ps (dict_set acc p bs)
      | _ \<Rightarrow> Inl OSError)"

text \<open>
  The \<^verbatim>\<open>try\<close> block of \<open>main\<close> up to the call of \<open>write_outputs\<close>, then the whole
  block, then \<open>main\<close> with its two \<^verbatim>\<open>except\<close> clauses. \<open>main\<close> starts after
  \<^verbatim>\<open>parse_args\<close>.
\<close>

definition run_stages ::
  "'a pylib_scheme \<Rightarrow> 'b world_scheme \<Rightarrow> args \<Rightarrow> exc + (ProcessedArtifact \<times> Provenance)" where
  "run_stages lib w a =
     (case fst (load_validate_hash lib w (arg_inputs a) (arg_config a) (arg_version a)) of
        Inl e \<Rightarrow> Inl e
      | Inr loaded \<Rightarrow>
          (case read_inputs (files w) (input_paths loaded) [] of
             Inl e \<Rightarrow> Inl e
           | Inr raw_inputs \<Rightarrow>
               (case process lib raw_inputs (config loaded) of
                  Inl e \<Rightarrow> Inl e
                | Inr processed \<Rightarrow>
                    (case build_provenance lib w (input_hashes loaded) (config_hash loaded)
                            (pipeline_version loaded) (config loaded) of
                       Inl e \<Rightarrow> Inl e
                     | Inr provenance \<Rightarrow> Inr (processed, provenance)))))"

definition main_try :: "'a pylib_scheme \<Rightarrow> world \<Rightarrow> args \<Rightarrow> exc + unit" where
  "main_try lib w a =
     (case run_stages lib w a of
        Inl e \<Rightarrow> Inl e
      | Inr (processed, provenance) \<Rightarrow>
          (case write_result w (arg_out a) processed provenance of
             Some e \<Rightarrow> Inl e
           | None \<Rightarrow> Inr ()))"

definition main :: "'a pylib_scheme \<Rightarrow> world \<Rightarrow> args \<Rightarrow> int" where
  "main lib w a =
     (case main_try lib w a of
        Inr u \<Rightarrow> 0
      | Inl e \<Rightarrow> if is_PipelineError e then 2 else 3)"

section \<open>Notions the properties are stated with\<close>

text \<open>
  A value is JSON-representable when no \<^verbatim>\<open>bytes\<close> object occurs in it. Two values
  are structurally equal when they are built alike, a dict being equal to a dict
  with the same keys and structurally equal values, whatever the insertion order.
\<close>

fun representable :: "pyval \<Rightarrow> bool" where
  "representable (PBytes b) = False"
| "representable (PList xs) = list_all representable xs"
| "representable (PDict d) = list_all (\<lambda>kv. representable (snd kv)) d"
| "representable v = True"


text \<open>The bytes of the file at a path.\<close>

definition file_bytes :: "filesystem \<Rightarrow> pystr \<Rightarrow> bytes" where
  "file_bytes fs p = (case fs p of Some (File bs) \<Rightarrow> bs | _ \<Rightarrow> [])"

text \<open>
  The keys at which two dicts may differ, for dicts that list the same keys in the
  same order.
\<close>

definition differ_only_at :: "pystr list \<Rightarrow> pyval dict \<Rightarrow> pyval dict \<Rightarrow> bool" where
  "differ_only_at ks d e =
     (map fst d = map fst e \<and> list_all (\<lambda>k. List.member ks k \<or> map_of d k = map_of e k) (map fst d))"

section \<open>Concrete surroundings for the examples\<close>

text \<open>
  A library and a world on which the functions above can be evaluated. The
  properties hold for every digest function, so the digest here is a stand-in, its
  input written in lowercase hex; \<^verbatim>\<open>json.loads\<close> is tabulated on the config texts that the
  examples read, and the case mappings for non-ASCII text, which no example
  reaches, leave the text alone.
\<close>

definition example_configs :: "(pystr \<times> pyval) list" where
  \<open>example_configs =
     [(ascii ''{"transform":"upper","seed":1}'',
         PDict [(ascii ''transform'', PStr (ascii ''upper'')), (ascii ''seed'', PInt 1)]),
      (ascii ''{"transform":"upper"}'',
         PDict [(ascii ''transform'', PStr (ascii ''upper''))]),
      (ascii ''{"transform":"mixed","seed":1}'',
         PDict [(ascii ''transform'', PStr (ascii ''mixed'')), (ascii ''seed'', PInt 1)]),
      (ascii ''{"transform":"upper","seed":"3"}'',
         PDict [(ascii ''transform'', PStr (ascii ''upper'')), (ascii ''seed'', PStr (ascii ''3''))]),
      (ascii ''{"transform":"upper","seed":true}'',
         PDict [(ascii ''transform'', PStr (ascii ''upper'')), (ascii ''seed'', PBool True)])]\<close>

definition example_lib :: pylib where
  "example_lib =
     \<lparr>sha256_hex =
        (\<lambda>bs. concat (map (\<lambda>c. [hex_digit (of_char c div 16), hex_digit (of_char c mod 16)]) bs)),
      json_loads = (\<lambda>t. case map_of example_configs t of
                           Some v \<Rightarrow> Inr v
                         | None \<Rightarrow> Inl JSONDecodeError),
      unicode_upper = (\<lambda>s. s),
      unicode_lower = (\<lambda>s. s)\<rparr>"

definition example_files :: "(pystr \<times> fnode) list" where
  \<open>example_files =
     [(ascii ''/in/a.txt'', File ''Hello World''),
      (ascii ''/in/bad.bin'', File [CHR 0xFF]),
      (ascii ''/cfg/upper.json'', File ''{"transform":"upper","seed":1}''),
      (ascii ''/cfg/noseed.json'', File ''{"transform":"upper"}''),
      (ascii ''/cfg/mixed.json'', File ''{"transform":"mixed","seed":1}''),
      (ascii ''/cfg/strseed.json'', File ''{"transform":"upper","seed":"3"}''),
      (ascii ''/cfg/boolseed.json'', File ''{"transform":"upper","seed":true}'')]\<close>

definition example_world :: world where
  "example_world =
     \<lparr>files = map_of example_files,
      resolve = (\<lambda>p. p),
      now_utc = ascii ''2024-01-01T00:00:00+00:00'',
      python_version = ascii ''3.11.4'',
      platform_name = ascii ''Linux'',
      implementation = ascii ''CPython'',
      write_result = (\<lambda>out_dir processed provenance. None)\<rparr>"

definition example_world_later :: world where
  "example_world_later =
     example_world\<lparr>now_utc := ascii ''2031-07-09T10:11:12+00:00'',
                   python_version := ascii ''3.12.1'',
                   platform_name := ascii ''Darwin''\<rparr>"

definition example_args :: args where
  "example_args =
     \<lparr>arg_inputs = [ascii ''/in/a.txt''], arg_config = ascii ''/cfg/upper.json'',
      arg_version = ascii ''1.0'', arg_out = ascii ''/out''\<rparr>"

definition example_args_bad :: args where
  "example_args_bad =
     \<lparr>arg_inputs = [ascii ''/in/bad.bin''], arg_config = ascii ''/cfg/upper.json'',
      arg_version = ascii ''1.0'', arg_out = ascii ''/out''\<rparr>"

definition example_args_missing :: args where
  "example_args_missing =
     \<lparr>arg_inputs = [ascii ''/in/missing.txt''], arg_config = ascii ''/cfg/upper.json'',
      arg_version = ascii ''1.0'', arg_out = ascii ''/out''\<rparr>"

section \<open>Basic facts\<close>

lemma ascii_eq_iff [simp]: "ascii s = ascii t \<longleftrightarrow> s = t"
  by (simp add: ascii_def inj_map_eq_map[OF inj_of_char])

lemma dict_has_map_of: "dict_has d k \<longleftrightarrow> map_of d k \<noteq> None"
  by (simp add: dict_has_def map_of_eq_None_iff)

lemma dict_comp_Inr: "dict_comp Inr raw = Inr raw"
  by (induction raw) auto

lemma transform_bytes_noop: "transform_bytes lib bs (PStr (ascii ''noop'')) = Inr bs"
  by (simp add: transform_bytes_def)

lemma utf8_decode_hello: "utf8_decode ''Hello World'' = Inr (ascii ''Hello World'')"
  by (simp add: utf8_decode.simps lead_info_def ascii_def)

lemma transform_bytes_upper_hello:
  "transform_bytes lib ''Hello World'' (PStr (ascii ''upper'')) = Inr ''HELLO WORLD''"
proof -
  have "str_upper lib (ascii ''Hello World'') = ascii ''HELLO WORLD''"
    by (simp add: str_upper_def ascii_def ascii_upper_cp_def)
  moreover have "utf8_encode (ascii ''HELLO WORLD'') = Inr ''HELLO WORLD''"
    by code_simp
  ultimately show ?thesis
    by (simp add: transform_bytes_def utf8_decode_hello)
qed

lemma transform_bytes_lower_hello:
  "transform_bytes lib ''Hello World'' (PStr (ascii ''lower'')) = Inr ''hello world''"
proof -
  have "str_lower lib (ascii ''Hello World'') = ascii ''hello world''"
    by (simp add: str_lower_def ascii_def ascii_lower_cp_def)
  moreover have "utf8_encode (ascii ''hello world'') = Inr ''hello world''"
    by code_simp
  ultimately show ?thesis
    by (simp add: transform_bytes_def utf8_decode_hello)
qed

lemma process_with_transform:
  "dict_has parameters (ascii ''seed'') \<Longrightarrow>
   map_of parameters (ascii ''transform'') = Some t \<Longrightarrow>
   process lib raw parameters =
     (case dict_comp (\<lambda>bs. transform_bytes lib bs t) raw of
        Inl e \<Rightarrow> Inl e
      | Inr processed \<Rightarrow> Inr \<lparr>items = processed\<rparr>)"
  by (simp add: process_def dict_has_map_of dict_get_def)

subsection \<open>Files, dicts and the input layer\<close>

lemma concat_read_chunks: "0 < n \<Longrightarrow> concat (read_chunks n bs) = bs"
proof (induction n bs rule: read_chunks.induct)
  case (1 n bs)
  then show ?case by (subst read_chunks.simps) auto
qed

lemma fold_hasher_update:
  "fold (\<lambda>chunk h. hasher_update h chunk) cs h = h @ concat cs"
  by (induction cs arbitrary: h) (auto simp: hasher_update_def)

lemma sha256_file_File:
  "fs p = Some (File bs) \<Longrightarrow> sha256_file lib fs p = Inr (sha256_hex lib bs)"
  by (simp add: sha256_file_def fold_hasher_update concat_read_chunks hasher_new_def hexdigest_def)

lemma is_file_iff: "is_file fs p \<longleftrightarrow> (\<exists>bs. fs p = Some (File bs))"
  by (auto simp: is_file_def split: option.splits fnode.splits)

lemma is_file_exists: "is_file fs p \<Longrightarrow> path_exists fs p"
  by (auto simp: is_file_iff path_exists_def)

lemma validate_each_ok:
  "list_all (is_file fs) ps \<Longrightarrow>
   validate_each fs ps = (Inr (), concat (map (\<lambda>p. [Exists p, IsFile p]) ps))"
  by (induction ps) (auto simp: is_file_exists)

lemma validate_each_Inr:
  "fst (validate_each fs ps) = Inr u \<Longrightarrow> list_all (is_file fs) ps"
  by (induction ps) (auto split: if_splits prod.splits)

lemma validate_each_fails:
  "\<not> list_all (is_file fs) ps \<Longrightarrow> fst (validate_each fs ps) = Inl InputValidationError"
  by (induction ps) (auto split: prod.splits)

lemma map_fst_dict_set:
  "map fst (dict_set d k v) = (if k \<in> set (map fst d) then map fst d else map fst d @ [k])"
  by (induction d) force+

lemma distinct_dict_set:
  "distinct (map fst d) \<Longrightarrow> distinct (map fst (dict_set d k v))"
  by (simp add: map_fst_dict_set)

lemma map_of_dict_set: "map_of (dict_set d k v) = (map_of d)(k \<mapsto> v)"
  by (induction d) auto

lemma hash_inputs_ok:
  "list_all (is_file fs) ps \<Longrightarrow>
   hash_inputs lib fs ps acc =
     (Inr (fold (\<lambda>p d. dict_set d p (sha256_hex lib (file_bytes fs p))) ps acc),
      map ReadBinary ps)"
proof (induction ps arbitrary: acc)
  case Nil
  then show ?case by simp
next
  case (Cons p ps)
  from Cons.prems obtain bs where bs: "fs p = Some (File bs)"
    by (auto simp: is_file_iff)
  with Cons show ?case
    by (simp add: sha256_file_File file_bytes_def)
qed


lemma utf8_decode_ascii:
  "list_all (\<lambda>c. of_char c < (128::nat)) bs \<Longrightarrow> utf8_decode bs = Inr (ascii bs)"
  by (induction bs) (auto simp: utf8_decode.simps lead_info_def ascii_def)

lemma utf8_encode_ascii:
  "list_all (\<lambda>c. c < 128) t \<Longrightarrow> utf8_encode t = Inr (map char_of t)"
  by (induction t) (auto simp: utf8_encode_cp_def)

lemma universal_newlines_no_cr:
  "13 \<notin> set t \<Longrightarrow> universal_newlines t = t"
  by (induction t rule: universal_newlines.induct) auto

lemma example_files_simps:
  "files example_world (ascii ''/in/a.txt'') = Some (File ''Hello World'')"
  "files example_world (ascii ''/in/bad.bin'') = Some (File [CHR 0xFF])"
  "files example_world (ascii ''/in/missing.txt'') = None"
  \<open>files example_world (ascii ''/cfg/upper.json'') = Some (File ''{"transform":"upper","seed":1}'')\<close>
  \<open>files example_world (ascii ''/cfg/noseed.json'') = Some (File ''{"transform":"upper"}'')\<close>
  \<open>files example_world (ascii ''/cfg/boolseed.json'') = Some (File ''{"transform":"upper","seed":true}'')\<close>
  by (simp_all add: example_world_def example_files_def)

lemma example_parse:
  \<open>read_and_parse example_lib (files example_world) (ascii ''/cfg/upper.json'')
     = Inr (PDict [(ascii ''transform'', PStr (ascii ''upper'')), (ascii ''seed'', PInt 1)])\<close>
  \<open>read_and_parse example_lib (files example_world) (ascii ''/cfg/noseed.json'')
     = Inr (PDict [(ascii ''transform'', PStr (ascii ''upper''))])\<close>
  \<open>read_and_parse example_lib (files example_world) (ascii ''/cfg/boolseed.json'')
     = Inr (PDict [(ascii ''transform'', PStr (ascii ''upper'')), (ascii ''seed'', PBool True)])\<close>
  by (simp_all add: read_and_parse_def read_text_def example_files_simps utf8_decode_ascii
      universal_newlines_no_cr example_lib_def example_configs_def, simp_all add: ascii_def)



lemma set_dict_set: "set (dict_set d k v) \<subseteq> insert (k, v) (set d)"
  by (induction d) (auto split: if_splits)

lemma keys_dict_set: "fst ` set (dict_set d k v) = insert k (fst ` set d)"
  using map_fst_dict_set[of d k v, THEN arg_cong, of set] by (auto split: if_splits)

lemma fold_dict_set_keys:
  "fst ` set (fold (\<lambda>p d. dict_set d p (g p)) ps acc) = fst ` set acc \<union> set ps"
  by (induction ps arbitrary: acc) (simp_all add: keys_dict_set)

lemma fold_dict_set_distinct:
  "distinct (map fst acc) \<Longrightarrow> distinct (map fst (fold (\<lambda>p d. dict_set d p (g p)) ps acc))"
  by (induction ps arbitrary: acc) (auto simp: distinct_dict_set)

lemma fold_dict_set_values:
  "(p, h) \<in> set (fold (\<lambda>p d. dict_set d p (g p)) ps acc) \<Longrightarrow>
   (p, h) \<in> set acc \<or> (p \<in> set ps \<and> h = g p)"
proof (induction ps arbitrary: acc)
  case Nil
  then show ?case by simp
next
  case (Cons q ps)
  from Cons.prems have "(p, h) \<in> set (fold (\<lambda>p d. dict_set d p (g p)) ps (dict_set acc q (g q)))"
    by simp
  from Cons.IH[OF this] show ?case
    using set_dict_set[of acc q "g q"] by auto
qed

lemma fold_dict_set_order:
  "distinct ps \<Longrightarrow> set ps \<inter> set (map fst acc) = {} \<Longrightarrow>
   map fst (fold (\<lambda>p d. dict_set d p (g p)) ps acc) = map fst acc @ ps"
proof (induction ps arbitrary: acc)
  case Nil
  then show ?case by simp
next
  case (Cons q ps)
  have "map fst (dict_set acc q (g q)) = map fst acc @ [q]"
    using Cons.prems by (simp add: map_fst_dict_set)
  moreover have "set ps \<inter> set (map fst (dict_set acc q (g q))) = {}"
    using Cons.prems by (auto simp: map_fst_dict_set)
  ultimately show ?case
    using Cons.IH[of "dict_set acc q (g q)"] Cons.prems by simp
qed

lemma validate_paths_Inr:
  "fst (validate_paths fs ps) = Inr u \<Longrightarrow> ps \<noteq> [] \<and> list_all (is_file fs) ps"
  by (auto simp: validate_paths_def dest: validate_each_Inr split: if_splits)

lemma load_validate_hash_Inr:
  assumes "fst (load_validate_hash lib w input_files config_file version) = Inr li"
  shows "strip version \<noteq> []"
    and "input_files \<noteq> []"
    and "input_paths li = map (resolve w) input_files"
    and "list_all (is_file (files w)) (input_paths li)"
    and "input_hashes li =
           fold (\<lambda>p d. dict_set d p (sha256_hex lib (file_bytes (files w) p))) (input_paths li) []"
    and "fst (load_config lib (files w) (resolve w config_file)) = Inr (config li)"
    and "sha256_json lib (PDict (config li)) = Inr (config_hash li)"
    and "pipeline_version li = strip version"
proof -
  let ?paths = "map (resolve w) input_files"
  from assms have v: "strip version \<noteq> []"
    by (auto simp: load_validate_hash_def)
  from assms v obtain u t1 where vp: "validate_paths (files w) ?paths = (Inr u, t1)"
    by (auto simp: load_validate_hash_def Let_def split: prod.splits sum.splits)
  then have files: "?paths \<noteq> []" "list_all (is_file (files w)) ?paths"
    using validate_paths_Inr[of "files w" ?paths u] by auto
  from assms v vp obtain cfg t2 where lc: "load_config lib (files w) (resolve w config_file) = (Inr cfg, t2)"
    by (auto simp: load_validate_hash_def Let_def split: prod.splits sum.splits)
  from assms v vp lc files obtain chash where
    ch: "sha256_json lib (PDict cfg) = Inr chash"
    and li: "li = \<lparr>input_paths = ?paths,
        input_hashes = fold (\<lambda>p d. dict_set d p (sha256_hex lib (file_bytes (files w) p))) ?paths [],
        config = cfg, config_hash = chash, pipeline_version = strip version\<rparr>"
    by (auto simp: load_validate_hash_def Let_def hash_inputs_ok split: prod.splits sum.splits)
  show "strip version \<noteq> []" by (rule v)
  show "input_files \<noteq> []" using files by simp
  show "input_paths li = map (resolve w) input_files" using li by simp
  show "list_all (is_file (files w)) (input_paths li)" using li files by simp
  show "input_hashes li =
           fold (\<lambda>p d. dict_set d p (sha256_hex lib (file_bytes (files w) p))) (input_paths li) []"
    using li by simp
  show "fst (load_config lib (files w) (resolve w config_file)) = Inr (config li)"
    using li lc by simp
  show "sha256_json lib (PDict (config li)) = Inr (config_hash li)" using li ch by simp
  show "pipeline_version li = strip version" using li by simp
qed

section \<open>The transformer\<close>

text \<open>
  C3. With a parameter set that holds a seed, \<open>process\<close> turns the entry
  \<^verbatim>\<open>b"Hello World"\<close> into \<^verbatim>\<open>b"HELLO WORLD"\<close> under \<^verbatim>\<open>transform = "upper"\<close> and into
  \<^verbatim>\<open>b"hello world"\<close> under \<^verbatim>\<open>transform = "lower"\<close>; under \<^verbatim>\<open>transform = "noop"\<close> it
  returns every mapping of byte payloads unchanged, whether or not the payloads
  are valid UTF-8.
\<close>

theorem process_case_transforms:
  assumes "dict_has parameters (ascii ''seed'')"
  shows "(map_of parameters (ascii ''transform'') = Some (PStr (ascii ''upper'')) \<longrightarrow>
            process lib [(k, ''Hello World'')] parameters
              = Inr \<lparr>items = [(k, ''HELLO WORLD'')]\<rparr>)
       \<and> (map_of parameters (ascii ''transform'') = Some (PStr (ascii ''lower'')) \<longrightarrow>
            process lib [(k, ''Hello World'')] parameters
              = Inr \<lparr>items = [(k, ''hello world'')]\<rparr>)
       \<and> (map_of parameters (ascii ''transform'') = Some (PStr (ascii ''noop'')) \<longrightarrow>
            process lib raw parameters = Inr \<lparr>items = raw\<rparr>)"
  using assms
  by (simp add: process_with_transform transform_bytes_upper_hello
      transform_bytes_lower_hello transform_bytes_noop dict_comp_Inr)

theorem process_case_transforms_witness:
  "process example_lib [(ascii ''file.txt'', ''Hello World'')]
     [(ascii ''transform'', PStr (ascii ''upper'')), (ascii ''seed'', PInt 123)]
     = Inr \<lparr>items = [(ascii ''file.txt'', ''HELLO WORLD'')]\<rparr>
   \<and> process example_lib [(ascii ''file.txt'', ''Hello World'')]
     [(ascii ''transform'', PStr (ascii ''lower'')), (ascii ''seed'', PInt 123)]
     = Inr \<lparr>items = [(ascii ''file.txt'', ''hello world'')]\<rparr>
   \<and> process example_lib [(ascii ''blob'', [CHR 0xFF, CHR 0xC0])]
     [(ascii ''transform'', PStr (ascii ''noop'')), (ascii ''seed'', PInt 123)]
     = Inr \<lparr>items = [(ascii ''blob'', [CHR 0xFF, CHR 0xC0])]\<rparr>
   \<and> utf8_decode [CHR 0xFF, CHR 0xC0] = Inl UnicodeDecodeError"
  using
    process_case_transforms [of "[(ascii ''transform'', PStr (ascii ''upper'')), (ascii ''seed'', PInt 123)]"
      example_lib "ascii ''file.txt''"]
    process_case_transforms [of "[(ascii ''transform'', PStr (ascii ''lower'')), (ascii ''seed'', PInt 123)]"
      example_lib "ascii ''file.txt''"]
    process_case_transforms [of "[(ascii ''transform'', PStr (ascii ''noop'')), (ascii ''seed'', PInt 123)]"
      example_lib _ "[(ascii ''blob'', [CHR 0xFF, CHR 0xC0])]"]
  by (simp add: dict_has_def utf8_decode.simps lead_info_def)

text \<open>
  C9. A parameter set without \<^verbatim>\<open>seed\<close> makes \<open>process\<close> fail with \<^verbatim>\<open>ValueError\<close>,
  whatever else it holds: the seed is required. Two parameter sets that both hold
  a seed and agree on \<^verbatim>\<open>transform\<close> give the same result of \<open>process\<close> on every
  raw-input mapping, the same artifact or the same exception: the value of the
  seed is never read.
\<close>

theorem process_seed_irrelevant:
  "(dict_has p1 (ascii ''seed'') \<and> dict_has p2 (ascii ''seed'')
      \<and> map_of p1 (ascii ''transform'') = map_of p2 (ascii ''transform'')
      \<longrightarrow> process lib raw p1 = process lib raw p2)
   \<and> (\<not> dict_has p (ascii ''seed'') \<longrightarrow> process lib raw p = Inl ValueError)"
  by (simp add: process_def dict_has_map_of dict_get_def)

theorem process_seed_irrelevant_witness:
  "process example_lib [(ascii ''file.txt'', ''Hello World'')]
     [(ascii ''transform'', PStr (ascii ''upper'')), (ascii ''seed'', PInt 1)]
   = process example_lib [(ascii ''file.txt'', ''Hello World'')]
     [(ascii ''seed'', PStr (ascii ''other'')), (ascii ''transform'', PStr (ascii ''upper''))]
   \<and> process example_lib [(ascii ''file.txt'', ''Hello World'')]
     [(ascii ''transform'', PStr (ascii ''upper'')), (ascii ''seed'', PInt 1)]
     = Inr \<lparr>items = [(ascii ''file.txt'', ''HELLO WORLD'')]\<rparr>
   \<and> process example_lib [(ascii ''file.txt'', ''Hello World'')]
     [(ascii ''transform'', PStr (ascii ''upper''))] = Inl ValueError"
  using process_seed_irrelevant
    [of "[(ascii ''transform'', PStr (ascii ''upper'')), (ascii ''seed'', PInt 1)]"
        "[(ascii ''seed'', PStr (ascii ''other'')), (ascii ''transform'', PStr (ascii ''upper''))]"
        example_lib "[(ascii ''file.txt'', ''Hello World'')]"
        "[(ascii ''transform'', PStr (ascii ''upper''))]"]
  by (simp add: dict_has_def process_with_transform transform_bytes_upper_hello)

section \<open>The input resolver\<close>

lemma ascii_Nil_iff [simp]: "ascii s = [] \<longleftrightarrow> s = []"
  by (simp add: ascii_def)

lemma read_text_Inr_is_file: "read_text fs p = Inr t \<Longrightarrow> is_file fs p"
  by (auto simp: read_text_def is_file_def split: option.splits fnode.splits)

lemma read_and_parse_is_file: "read_and_parse lib fs p = Inr v \<Longrightarrow> is_file fs p"
  by (auto simp: read_and_parse_def dest: read_text_Inr_is_file split: sum.splits)

lemma load_config_parsed:
  "read_and_parse lib fs p = Inr v \<Longrightarrow>
   load_config lib fs p = (check_config v, [Exists p, IsFile p, ReadText p])"
  by (frule read_and_parse_is_file) (simp add: load_config_def is_file_exists)


lemma check_config_bool_seed:
  "map_of d (ascii ''transform'') = Some t \<Longrightarrow>
   t \<in> {PStr (ascii ''upper''), PStr (ascii ''lower''), PStr (ascii ''noop'')} \<Longrightarrow>
   map_of d (ascii ''seed'') = Some (PBool b) \<Longrightarrow>
   check_config (PDict d) = Inr d"
  by (auto simp: check_config_def dict_get_def dict_has_map_of Let_def)


lemma load_validate_hash_ok:
  assumes "strip version \<noteq> []" and "input_files \<noteq> []"
    and "list_all (is_file (files w)) (map (resolve w) input_files)"
    and "read_and_parse lib (files w) (resolve w config_file) = Inr v"
    and "check_config v = Inr cfg"
    and "sha256_json lib (PDict cfg) = Inr chash"
  shows "fst (load_validate_hash lib w input_files config_file version) =
           Inr \<lparr>input_paths = map (resolve w) input_files,
                input_hashes =
                  fold (\<lambda>p d. dict_set d p (sha256_hex lib (file_bytes (files w) p)))
                    (map (resolve w) input_files) [],
                config = cfg, config_hash = chash, pipeline_version = strip version\<rparr>"
  using assms
  by (simp add: load_validate_hash_def validate_paths_def validate_each_ok load_config_parsed
      hash_inputs_ok Let_def)

lemma load_validate_hash_paths_fail:
  assumes "strip version \<noteq> []"
    and "\<not> list_all (is_file (files w)) (map (resolve w) input_files)"
  shows "fst (load_validate_hash lib w input_files config_file version) = Inl InputValidationError"
proof -
  have "fst (validate_paths (files w) (map (resolve w) input_files)) = Inl InputValidationError"
    using assms(2) validate_each_fails[of "files w" "map (resolve w) input_files"]
    by (simp add: validate_paths_def)
  then show ?thesis
    using assms(1)
    by (auto simp: load_validate_hash_def Let_def split: prod.splits sum.splits)
qed

lemma strip_example_version: "strip (ascii ''1.0'') = ascii ''1.0''"
  by (simp add: strip_def ascii_def py_isspace_def)

lemma example_resolve: "resolve example_world p = p"
  by (simp add: example_world_def)




text \<open>
  C10. A config whose \<^verbatim>\<open>seed\<close> is a JSON boolean passes \<open>_load_config\<close>:
  \<^verbatim>\<open>isinstance(True, int)\<close> holds, so with a valid \<^verbatim>\<open>transform\<close> the parsed dict is
  returned and no \<^verbatim>\<open>ConfigError\<close> is raised.
\<close>

theorem bool_seed_accepted:
  assumes "read_and_parse lib fs p = Inr (PDict d)"
    and "map_of d (ascii ''transform'') = Some t"
    and "t \<in> {PStr (ascii ''upper''), PStr (ascii ''lower''), PStr (ascii ''noop'')}"
    and "map_of d (ascii ''seed'') = Some (PBool b)"
  shows "isinstance_int (PBool b) \<and> fst (load_config lib fs p) = Inr d"
  using assms by (simp add: load_config_parsed check_config_bool_seed)

theorem bool_seed_accepted_witness:
  "isinstance_int (PBool True)
   \<and> fst (load_config example_lib (files example_world) (ascii ''/cfg/boolseed.json''))
       = Inr [(ascii ''transform'', PStr (ascii ''upper'')), (ascii ''seed'', PBool True)]"
  using bool_seed_accepted[of example_lib "files example_world" "ascii ''/cfg/boolseed.json''"
      "[(ascii ''transform'', PStr (ascii ''upper'')), (ascii ''seed'', PBool True)]"
      "PStr (ascii ''upper'')" True]
  by (simp add: example_parse)

lemma utf8_encode_ascii_str:
  "list_all (\<lambda>c. of_char c < (128::nat)) s \<Longrightarrow> utf8_encode (ascii s) = Inr s"
  by (induction s) (auto simp: utf8_encode_cp_def ascii_def)

lemma example_config_json:
  \<open>canonical_json_dumps
      (PDict [(ascii ''transform'', PStr (ascii ''upper'')), (ascii ''seed'', PInt 1)])
     = Inr (ascii ''{"seed":1,"transform":"upper"}'')\<close>
  by (simp add: canonical_json_dumps_def json_string_def json_escape_cp_def int_repr_def
      nat_repr.simps ascii_def)

lemma example_config_hash:
  \<open>sha256_json example_lib
      (PDict [(ascii ''transform'', PStr (ascii ''upper'')), (ascii ''seed'', PInt 1)])
     = Inr (sha256_hex example_lib ''{"seed":1,"transform":"upper"}'')\<close>
  by (simp add: sha256_json_def example_config_json utf8_encode_ascii_str sha256_bytes_def
      hexdigest_def hasher_update_def hasher_new_def)

lemma example_check_upper:
  "check_config (PDict [(ascii ''transform'', PStr (ascii ''upper'')), (ascii ''seed'', PInt 1)])
     = Inr [(ascii ''transform'', PStr (ascii ''upper'')), (ascii ''seed'', PInt 1)]"
  by (simp add: check_config_def dict_has_def dict_get_def)

lemma example_load_twice:
  \<open>fst (load_validate_hash example_lib example_world [ascii ''/in/a.txt'', ascii ''/in/a.txt'']
          (ascii ''/cfg/upper.json'') (ascii ''1.0''))
     = Inr \<lparr>input_paths = [ascii ''/in/a.txt'', ascii ''/in/a.txt''],
            input_hashes = [(ascii ''/in/a.txt'', sha256_hex example_lib ''Hello World'')],
            config = [(ascii ''transform'', PStr (ascii ''upper'')), (ascii ''seed'', PInt 1)],
            config_hash = sha256_hex example_lib ''{"seed":1,"transform":"upper"}'',
            pipeline_version = ascii ''1.0''\<rparr>\<close>
  using load_validate_hash_ok[of "ascii ''1.0''" "[ascii ''/in/a.txt'', ascii ''/in/a.txt'']"
      example_world example_lib "ascii ''/cfg/upper.json''", OF _ _ _ _ example_check_upper
      example_config_hash]
  by (simp add: strip_example_version example_resolve example_parse is_file_def
      example_files_simps file_bytes_def)

text \<open>
  C6, as the code has it. In every record that \<open>load_validate_hash\<close> returns, the
  keys of the hash mapping are distinct and are exactly the input paths as a set,
  every hash is the digest of the bytes of the file at its path and of nothing
  else, and when no input path is listed twice the keys are the input paths, one
  entry per path in the same order.
\<close>

theorem loaded_inputs_hash_mapping:
  assumes "fst (load_validate_hash lib w input_files config_file version) = Inr li"
  shows "distinct (map fst (input_hashes li))
       \<and> set (map fst (input_hashes li)) = set (input_paths li)
       \<and> (\<forall>p h. (p, h) \<in> set (input_hashes li) \<longrightarrow>
             (\<exists>bs. files w p = Some (File bs) \<and> h = sha256_hex lib bs))
       \<and> (distinct (input_paths li) \<longrightarrow> map fst (input_hashes li) = input_paths li)"
proof -
  note f = load_validate_hash_Inr[OF assms]
  have 1: "distinct (map fst (input_hashes li))"
    by (simp add: f(5) fold_dict_set_distinct)
  have 2: "set (map fst (input_hashes li)) = set (input_paths li)"
    by (subst f(5)) (simp add: fold_dict_set_keys)
  have 3: "\<exists>bs. files w p = Some (File bs) \<and> h = sha256_hex lib bs"
    if "(p, h) \<in> set (input_hashes li)" for p h
  proof -
    from that have "p \<in> set (input_paths li) \<and> h = sha256_hex lib (file_bytes (files w) p)"
      using fold_dict_set_values[of p h "\<lambda>p. sha256_hex lib (file_bytes (files w) p)" "input_paths li" "[]"]
      by (simp add: f(5)[symmetric])
    moreover from this f(4) obtain bs where "files w p = Some (File bs)"
      by (auto simp: list_all_iff is_file_iff)
    ultimately show ?thesis by (auto simp: file_bytes_def)
  qed
  have 4: "map fst (input_hashes li) = input_paths li" if "distinct (input_paths li)"
    by (subst f(5))
      (use fold_dict_set_order[OF that, of "[]" "\<lambda>p. sha256_hex lib (file_bytes (files w) p)"]
        in simp)
  from 1 2 3 4 show ?thesis by blast
qed

text \<open>
  C6 as stated fails: an input file listed twice gives a record with two input
  paths and one mapping entry.
\<close>

theorem loaded_inputs_hash_mapping_counterexample:
  \<open>fst (load_validate_hash example_lib example_world [ascii ''/in/a.txt'', ascii ''/in/a.txt'']
          (ascii ''/cfg/upper.json'') (ascii ''1.0''))
     = Inr \<lparr>input_paths = [ascii ''/in/a.txt'', ascii ''/in/a.txt''],
            input_hashes = [(ascii ''/in/a.txt'', sha256_hex example_lib ''Hello World'')],
            config = [(ascii ''transform'', PStr (ascii ''upper'')), (ascii ''seed'', PInt 1)],
            config_hash = sha256_hex example_lib ''{"seed":1,"transform":"upper"}'',
            pipeline_version = ascii ''1.0''\<rparr>
   \<and> length [ascii ''/in/a.txt'', ascii ''/in/a.txt'']
       \<noteq> length [(ascii ''/in/a.txt'', sha256_hex example_lib ''Hello World'')]\<close>
  by (simp add: example_load_twice)

lemma example_load_once:
  \<open>fst (load_validate_hash example_lib example_world [ascii ''/in/a.txt'']
          (ascii ''/cfg/upper.json'') (ascii ''1.0''))
     = Inr \<lparr>input_paths = [ascii ''/in/a.txt''],
            input_hashes = [(ascii ''/in/a.txt'', sha256_hex example_lib ''Hello World'')],
            config = [(ascii ''transform'', PStr (ascii ''upper'')), (ascii ''seed'', PInt 1)],
            config_hash = sha256_hex example_lib ''{"seed":1,"transform":"upper"}'',
            pipeline_version = ascii ''1.0''\<rparr>\<close>
  using load_validate_hash_ok[of "ascii ''1.0''" "[ascii ''/in/a.txt'']"
      example_world example_lib "ascii ''/cfg/upper.json''", OF _ _ _ _ example_check_upper
      example_config_hash]
  by (simp add: strip_example_version example_resolve example_parse is_file_def
      example_files_simps file_bytes_def)

theorem loaded_inputs_hash_mapping_witness:
  \<open>fst (load_validate_hash example_lib example_world [ascii ''/in/a.txt'']
          (ascii ''/cfg/upper.json'') (ascii ''1.0''))
     = Inr \<lparr>input_paths = [ascii ''/in/a.txt''],
            input_hashes = [(ascii ''/in/a.txt'', sha256_hex example_lib ''Hello World'')],
            config = [(ascii ''transform'', PStr (ascii ''upper'')), (ascii ''seed'', PInt 1)],
            config_hash = sha256_hex example_lib ''{"seed":1,"transform":"upper"}'',
            pipeline_version = ascii ''1.0''\<rparr>
   \<and> map fst [(ascii ''/in/a.txt'', sha256_hex example_lib ''Hello World'')] = [ascii ''/in/a.txt'']
   \<and> files example_world (ascii ''/in/a.txt'') = Some (File ''Hello World'')\<close>
  using loaded_inputs_hash_mapping[OF example_load_once] example_load_once
  by (simp add: example_files_simps)

section \<open>The provenance builder\<close>

lemma distinct_keys_mset_eq:
  assumes "distinct (map fst xs)" and "distinct (map fst ys)" and "set xs = set ys"
  shows "mset xs = mset ys"
proof -
  have "distinct xs" "distinct ys"
    using assms(1,2) by (auto simp: distinct_map)
  then show ?thesis
    using assms(3) by (simp add: set_eq_iff_mset_eq_distinct)
qed

lemma sorted_items_unique:
  assumes "distinct (map fst xs)" and "distinct (map fst ys)" and "set xs = set ys"
  shows "sort_key fst xs = sort_key fst ys"
proof (rule sort_key_eq_sort_key)
  show "mset xs = mset ys" using assms by (rule distinct_keys_mset_eq)
  show "inj_on fst (set xs)" using assms(1) by (simp add: distinct_map)
qed

lemma map_insort_key: "map f (insort_key f x xs) = insort (f x) (map f xs)"
  by (induction xs) auto

lemma map_fst_sort_key: "map f (sort_key f xs) = sort (map f xs)"
  by (induction xs) (simp_all add: map_insort_key)

lemma sequence_append:
  "sequence (rs @ ss) =
     (case sequence rs of
        Inl e \<Rightarrow> Inl e
      | Inr a \<Rightarrow> (case sequence ss of Inl e \<Rightarrow> Inl e | Inr b \<Rightarrow> Inr (a @ b)))"
  by (induction rs) (auto split: sum.splits)

lemma feed_inputs_items:
  "list_all (\<lambda>kv. map_of d (fst kv) = Some (snd kv)) its \<Longrightarrow>
   feed_inputs d (map fst its) h =
     (case sequence (map utf8_encode (concat (map (\<lambda>(p, hv). [p, hv]) its))) of
        Inl e \<Rightarrow> Inl e
      | Inr parts \<Rightarrow> Inr (h @ concat parts))"
proof (induction its arbitrary: h)
  case Nil
  then show ?case by simp
next
  case (Cons kv its)
  obtain k v where kv: "kv = (k, v)" by (cases kv)
  with Cons.prems have look: "dict_get d k = Inr v" and rest:
    "list_all (\<lambda>kv. map_of d (fst kv) = Some (snd kv)) its"
    by (simp_all add: dict_get_def)
  show ?case
    using Cons.IH[OF rest] look
    by (simp add: kv hasher_update_def split: sum.splits)
qed

lemma feed_inputs_cong:
  "map_of d = map_of e \<Longrightarrow> feed_inputs d ks h = feed_inputs e ks h"
  by (induction ks arbitrary: h) (auto simp: dict_get_def split: sum.splits)

lemma compute_run_id_feed:
  assumes "distinct (map fst xs)"
  shows "compute_run_id lib xs chash version =
     (case sequence (map utf8_encode
             (concat (map (\<lambda>(p, h). [p, h]) (sort_key fst xs)) @ [chash, version])) of
        Inl e \<Rightarrow> Inl e
      | Inr parts \<Rightarrow> Inr (sha256_hex lib (concat parts)))"
proof -
  have "list_all (\<lambda>kv. map_of xs (fst kv) = Some (snd kv)) (sort_key fst xs)"
    using assms by (auto simp: list_all_iff)
  from feed_inputs_items[OF this, of hasher_new]
  show ?thesis
    by (simp add: compute_run_id_def map_fst_sort_key sequence_append hexdigest_def
        hasher_update_def hasher_new_def split: sum.splits)
qed

text \<open>
  C2. Two input-hash mappings with the same entries, supplied in whatever order,
  give the same result of \<open>_compute_run_id\<close>. The strings fed to the hasher are,
  for each item in strictly increasing order of the paths, the path and its hash,
  then the config hash, then the pipeline version, each encoded as UTF-8; the
  identifier is the digest of what was fed.
\<close>

theorem run_id_order_invariant:
  assumes "distinct (map fst xs)" and "distinct (map fst ys)" and "set xs = set ys"
  shows "compute_run_id lib ys chash version = compute_run_id lib xs chash version
       \<and> sorted_wrt (<) (map fst (sort_key fst xs))
       \<and> compute_run_id lib xs chash version =
           (case sequence (map utf8_encode
                   (concat (map (\<lambda>(p, h). [p, h]) (sort_key fst xs)) @ [chash, version])) of
              Inl e \<Rightarrow> Inl e
            | Inr parts \<Rightarrow> Inr (sha256_hex lib (concat parts)))"
proof -
  have "compute_run_id lib ys chash version = compute_run_id lib xs chash version"
    by (simp add: compute_run_id_feed assms(1,2) sorted_items_unique[OF assms])
  moreover have "sorted_wrt (<) (map fst (sort_key fst xs))"
    using assms(1) by (simp add: strict_sorted_iff map_fst_sort_key)
  ultimately show ?thesis
    using compute_run_id_feed[OF assms(1)] by simp
qed

theorem run_id_order_invariant_witness:
  "compute_run_id example_lib
      [(ascii ''/in/b.txt'', ascii ''h2''), (ascii ''/in/a.txt'', ascii ''h1'')]
      (ascii ''c0'') (ascii ''1.0'')
     = compute_run_id example_lib
      [(ascii ''/in/a.txt'', ascii ''h1''), (ascii ''/in/b.txt'', ascii ''h2'')]
      (ascii ''c0'') (ascii ''1.0'')
   \<and> compute_run_id example_lib
      [(ascii ''/in/a.txt'', ascii ''h1''), (ascii ''/in/b.txt'', ascii ''h2'')]
      (ascii ''c0'') (ascii ''1.0'')
     = Inr (sha256_hex example_lib ''/in/a.txth1/in/b.txth2c01.0'')"
proof -
  have s: "ascii ''/in/a.txt'' \<le> ascii ''/in/b.txt''"
    by (simp add: ascii_def)
  show ?thesis
    using run_id_order_invariant[of
        "[(ascii ''/in/a.txt'', ascii ''h1''), (ascii ''/in/b.txt'', ascii ''h2'')]"
        "[(ascii ''/in/b.txt'', ascii ''h2''), (ascii ''/in/a.txt'', ascii ''h1'')]"
        example_lib "ascii ''c0''" "ascii ''1.0''"]
    by (simp add: s utf8_encode_ascii_str insert_commute)
qed

lemma build_provenance_run_id:
  "map_sum id (\<lambda>p. map_of (data p) (ascii ''run_id'')) (build_provenance lib w hashes chash version ps)
     = map_sum id (\<lambda>rid. Some (PStr rid)) (compute_run_id lib hashes chash version)"
  by (simp add: build_provenance_def Let_def split: sum.splits)

lemma build_provenance_audit_only:
  "rel_sum (=)
     (\<lambda>p q. differ_only_at [ascii ''timestamp_utc'', ascii ''execution_environment'']
               (data p) (data q))
     (build_provenance lib w1 hashes chash version ps)
     (build_provenance lib w2 hashes chash version ps)"
  by (simp add: build_provenance_def Let_def differ_only_at_def split: sum.splits)

lemma load_validate_hash_world:
  assumes "files w1 = files w2" and "resolve w1 = resolve w2"
  shows "load_validate_hash lib w1 input_files config_file version
     = load_validate_hash lib w2 input_files config_file version"
  unfolding load_validate_hash_def assms by (rule refl)

lemma build_provenance_same_run_id:
  assumes "build_provenance lib w1 hashes chash version ps = Inr p"
    and "build_provenance lib w2 hashes chash version ps = Inr q"
  shows "map_of (data p) (ascii ''run_id'') = map_of (data q) (ascii ''run_id'')"
  using build_provenance_run_id[of lib w1 hashes chash version ps]
    build_provenance_run_id[of lib w2 hashes chash version ps] assms
  by (cases "compute_run_id lib hashes chash version") auto

text \<open>
  C1. The run identifier in the provenance record is the result of
  \<open>_compute_run_id\<close> on the input hashes, the config hash and the version, whatever
  the clock and the environment descriptors are. Two calls of \<open>build_provenance\<close>
  on the same arguments, and two runs of the stages of \<open>main\<close> in worlds with the
  same files that differ in clock and environment, fail alike or give the same
  processed artifacts, the same run identifier and provenance records that differ
  at most at \<^verbatim>\<open>timestamp_utc\<close> and \<^verbatim>\<open>execution_environment\<close>.
\<close>

theorem provenance_non_interference:
  assumes "files w1 = files w2" and "resolve w1 = resolve w2"
  shows "map_sum id (\<lambda>p. map_of (data p) (ascii ''run_id''))
             (build_provenance lib w1 hashes chash version ps)
           = map_sum id (\<lambda>rid. Some (PStr rid)) (compute_run_id lib hashes chash version)
       \<and> rel_sum (=)
           (\<lambda>p q. differ_only_at [ascii ''timestamp_utc'', ascii ''execution_environment'']
                     (data p) (data q))
           (build_provenance lib w1 hashes chash version ps)
           (build_provenance lib w2 hashes chash version ps)
       \<and> rel_sum (=)
           (\<lambda>r1 r2. fst r1 = fst r2
              \<and> map_of (data (snd r1)) (ascii ''run_id'') = map_of (data (snd r2)) (ascii ''run_id'')
              \<and> differ_only_at [ascii ''timestamp_utc'', ascii ''execution_environment'']
                   (data (snd r1)) (data (snd r2)))
           (run_stages lib w1 a) (run_stages lib w2 a)"
proof -
  have stages: "rel_sum (=)
           (\<lambda>r1 r2. fst r1 = fst r2
              \<and> map_of (data (snd r1)) (ascii ''run_id'') = map_of (data (snd r2)) (ascii ''run_id'')
              \<and> differ_only_at [ascii ''timestamp_utc'', ascii ''execution_environment'']
                   (data (snd r1)) (data (snd r2)))
           (run_stages lib w1 a) (run_stages lib w2 a)"
  proof (cases "fst (load_validate_hash lib w2 (arg_inputs a) (arg_config a) (arg_version a))")
    case (Inl e)
    then show ?thesis
      by (simp add: run_stages_def load_validate_hash_world[OF assms])
  next
    case (Inr loaded)
    show ?thesis
    proof (cases "read_inputs (files w2) (input_paths loaded) []")
      case (Inl e)
      then show ?thesis
        using Inr by (simp add: run_stages_def load_validate_hash_world[OF assms] assms(1))
    next
      case raw: (Inr raw_inputs)
      show ?thesis
      proof (cases "process lib raw_inputs (config loaded)")
        case (Inl e)
        then show ?thesis
          using Inr raw
          by (simp add: run_stages_def load_validate_hash_world[OF assms] assms(1))
      next
        case proc: (Inr processed)
        have "run_stages lib w1 a =
            map_sum id (Pair processed)
              (build_provenance lib w1 (input_hashes loaded) (config_hash loaded)
                 (pipeline_version loaded) (config loaded))"
          and "run_stages lib w2 a =
            map_sum id (Pair processed)
              (build_provenance lib w2 (input_hashes loaded) (config_hash loaded)
                 (pipeline_version loaded) (config loaded))"
          using Inr raw proc
          by (simp_all add: run_stages_def load_validate_hash_world[OF assms] assms(1)
              split: sum.splits)
        then show ?thesis
          using build_provenance_audit_only[of lib w1 "input_hashes loaded" "config_hash loaded"
              "pipeline_version loaded" "config loaded" w2]
            build_provenance_same_run_id[of lib w1 "input_hashes loaded" "config_hash loaded"
              "pipeline_version loaded" "config loaded" _ w2]
          by (auto simp: rel_sum.simps split: sum.splits)
      qed
    qed
  qed
  show ?thesis
    using build_provenance_run_id build_provenance_audit_only stages by blast
qed

lemma hex_digit_ascii: "n < 16 \<Longrightarrow> hex_digit n < 128"
  by (simp add: hex_digit_def)

lemma example_digest_ascii: "list_all (\<lambda>c. c < 128) (sha256_hex example_lib bs)"
proof -
  have "of_char c div 16 < (16::nat)" for c :: char
    using of_char_mod_256[of c, where ?'a = nat]
    by (metis div_less_iff_less_mult mod_less_divisor numeral_times_numeral semiring_norm(12,13) zero_less_numeral)
  then show ?thesis
    by (induction bs) (simp_all add: example_lib_def hex_digit_ascii)
qed

lemma example_digest_encode:
  "utf8_encode (sha256_hex example_lib bs) = Inr (map char_of (sha256_hex example_lib bs))"
  by (rule utf8_encode_ascii[OF example_digest_ascii])

lemma example_run_id:
  \<open>compute_run_id example_lib
      [(ascii ''/in/a.txt'', sha256_hex example_lib ''Hello World'')]
      (sha256_hex example_lib ''{"seed":1,"transform":"upper"}'') (ascii ''1.0'')
     = Inr (sha256_hex example_lib
             (''/in/a.txt'' @ map char_of (sha256_hex example_lib ''Hello World'')
                @ map char_of (sha256_hex example_lib ''{"seed":1,"transform":"upper"}'')
                @ ''1.0''))\<close>
  by (simp add: compute_run_id_feed utf8_encode_ascii_str example_digest_encode)

lemma example_stages:
  "map_sum id fst (run_stages example_lib example_world example_args)
     = Inr \<lparr>items = [(ascii ''/in/a.txt'', ''HELLO WORLD'')]\<rparr>"
  by (simp add: run_stages_def example_args_def example_load_once example_files_simps
      process_with_transform dict_has_def transform_bytes_upper_hello build_provenance_def
      example_run_id)

theorem provenance_non_interference_witness:
  "now_utc example_world \<noteq> now_utc example_world_later
   \<and> platform_name example_world \<noteq> platform_name example_world_later
   \<and> map_sum id fst (run_stages example_lib example_world example_args)
       = Inr \<lparr>items = [(ascii ''/in/a.txt'', ''HELLO WORLD'')]\<rparr>
   \<and> map_sum id fst (run_stages example_lib example_world_later example_args)
       = Inr \<lparr>items = [(ascii ''/in/a.txt'', ''HELLO WORLD'')]\<rparr>
   \<and> map_sum id (\<lambda>r. map_of (data (snd r)) (ascii ''run_id''))
         (run_stages example_lib example_world_later example_args)
       = map_sum id (\<lambda>r. map_of (data (snd r)) (ascii ''run_id''))
         (run_stages example_lib example_world example_args)"
proof -
  have w: "files example_world = files example_world_later"
    "resolve example_world = resolve example_world_later"
    by (simp_all add: example_world_later_def)
  have t: "now_utc example_world \<noteq> now_utc example_world_later"
    "platform_name example_world \<noteq> platform_name example_world_later"
    by (simp_all add: example_world_later_def example_world_def)
  obtain art p where r1: "run_stages example_lib example_world example_args = Inr (art, p)"
    and art: "art = \<lparr>items = [(ascii ''/in/a.txt'', ''HELLO WORLD'')]\<rparr>"
    using example_stages by (cases "run_stages example_lib example_world example_args") auto
  from provenance_non_interference[OF w, of example_lib _ _ _ _ example_args] r1
  obtain q where "run_stages example_lib example_world_later example_args = Inr (art, q)"
    and "map_of (data p) (ascii ''run_id'') = map_of (data q) (ascii ''run_id'')"
    by (cases "run_stages example_lib example_world_later example_args") auto
  with r1 art t show ?thesis by simp
qed

section \<open>The orchestrator\<close>

lemma utf8_decode_error: "utf8_decode bs = Inl e \<Longrightarrow> e = UnicodeDecodeError"
proof (induction bs rule: utf8_decode.induct)
  case 1
  then show ?case by (simp add: utf8_decode.simps)
next
  case (2 b bs)
  show ?case
  proof (cases "lead_info (of_char b)")
    case None
    with "2.prems" show ?thesis by (simp add: utf8_decode.simps)
  next
    case (Some info)
    obtain k payload lo hi where info: "info = (k, payload, lo, hi)" by (cases info)
    show ?thesis
    proof (cases "length (map of_char (take k bs) :: nat list) = k
        \<and> conts_ok lo hi (map of_char (take k bs))")
      case True
      with "2.prems" Some info have "utf8_decode (drop k bs) = Inl e"
        by (auto simp: utf8_decode.simps Let_def split: sum.splits)
      with "2.IH"[OF Some info[symmetric, THEN arg_cong, of "\<lambda>x. x"] refl refl refl] True
      show ?thesis by auto
    next
      case False
      with "2.prems" Some info show ?thesis
        by (auto simp: utf8_decode.simps Let_def split: sum.splits if_splits)
    qed
  qed
qed

lemma utf8_encode_error: "utf8_encode t = Inl e \<Longrightarrow> e = UnicodeEncodeError"
  by (induction t) (auto split: option.splits sum.splits)

lemma transform_bytes_error:
  "transform_bytes lib bs t = Inl e \<Longrightarrow> e \<in> {ValueError, UnicodeDecodeError, UnicodeEncodeError}"
  by (auto simp: transform_bytes_def dest: utf8_decode_error utf8_encode_error
      split: if_splits sum.splits)

lemma dict_comp_error:
  "dict_comp f raw = Inl e \<Longrightarrow> \<exists>v. f v = Inl e"
  by (induction raw) (auto split: sum.splits)

lemma process_error:
  "process lib raw ps = Inl e \<Longrightarrow> e \<in> {ValueError, UnicodeDecodeError, UnicodeEncodeError}"
  by (auto simp: process_def dict_get_def dict_has_map_of
      dest!: dict_comp_error transform_bytes_error split: if_splits sum.splits option.splits)


lemma process_missing_parameter:
  "\<not> dict_has ps (ascii ''transform'') \<or> \<not> dict_has ps (ascii ''seed'') \<Longrightarrow>
   process lib raw ps = Inl ValueError"
  by (auto simp: process_def)

lemma main_load_fails:
  "fst (load_validate_hash lib w (arg_inputs a) (arg_config a) (arg_version a)) = Inl e \<Longrightarrow>
   main lib w a = (if is_PipelineError e then 2 else 3)"
  by (simp add: main_def main_try_def run_stages_def)

lemma main_process_fails:
  "fst (load_validate_hash lib w (arg_inputs a) (arg_config a) (arg_version a)) = Inr loaded \<Longrightarrow>
   read_inputs (files w) (input_paths loaded) [] = Inr raw_inputs \<Longrightarrow>
   process lib raw_inputs (config loaded) = Inl e \<Longrightarrow>
   main lib w a = 3"
  using process_error[of lib raw_inputs "config loaded" e]
  by (auto simp: main_def main_try_def run_stages_def)

lemma transform_bytes_unsupported:
  "t \<noteq> PStr (ascii ''noop'') \<Longrightarrow> t \<noteq> PStr (ascii ''upper'') \<Longrightarrow>
   t \<noteq> PStr (ascii ''lower'') \<Longrightarrow> utf8_decode bs = Inr decoded \<Longrightarrow>
   transform_bytes lib bs t = Inl ValueError"
  by (simp add: transform_bytes_def)

lemma transform_bytes_undecodable:
  "t \<noteq> PStr (ascii ''noop'') \<Longrightarrow> utf8_decode bs = Inl e \<Longrightarrow>
   transform_bytes lib bs t = Inl UnicodeDecodeError"
  by (auto simp: transform_bytes_def dest: utf8_decode_error)

lemma main_exit_iff:
  "(main lib w a = 0 \<longleftrightarrow> main_try lib w a = Inr ())
   \<and> (main lib w a = 2 \<longleftrightarrow> (\<exists>e. main_try lib w a = Inl e \<and> is_PipelineError e))
   \<and> (main lib w a = 3 \<longleftrightarrow> (\<exists>e. main_try lib w a = Inl e \<and> \<not> is_PipelineError e))"
  by (cases "main_try lib w a") (auto simp: main_def)

text \<open>
  C5, as the code has it. \<open>main\<close> returns 2 exactly when its \<^verbatim>\<open>try\<close> block
  raises a \<^verbatim>\<open>PipelineError\<close> and 3 exactly when it raises anything else; a
  failure of \<open>load_validate_hash\<close> with \<^verbatim>\<open>InputValidationError\<close> or
  \<^verbatim>\<open>ConfigError\<close> gives 2. The processing errors are built-in exceptions outside
  the \<^verbatim>\<open>PipelineError\<close> classes: \<open>process\<close> raises \<^verbatim>\<open>ValueError\<close> for a missing
  \<^verbatim>\<open>transform\<close> or \<^verbatim>\<open>seed\<close>, \<open>_transform_bytes\<close> raises \<^verbatim>\<open>ValueError\<close> for an
  unsupported transform on decodable bytes and \<^verbatim>\<open>UnicodeDecodeError\<close> for
  undecodable bytes under a transform other than \<^verbatim>\<open>noop\<close>; every failure of
  \<open>process\<close> is one of \<^verbatim>\<open>ValueError\<close>, \<^verbatim>\<open>UnicodeDecodeError\<close> and
  \<^verbatim>\<open>UnicodeEncodeError\<close>, none of them a \<^verbatim>\<open>PipelineError\<close>, and when \<open>process\<close>
  fails inside \<open>main\<close>, \<open>main\<close> returns 3.
\<close>

theorem main_exit_codes:
  "(fst (load_validate_hash lib w (arg_inputs a) (arg_config a) (arg_version a)) = Inl e
      \<and> e \<in> {InputValidationError, ConfigError} \<longrightarrow> main lib w a = 2)
   \<and> (\<not> dict_has ps (ascii ''transform'') \<or> \<not> dict_has ps (ascii ''seed'')
        \<longrightarrow> process lib raw ps = Inl ValueError)
   \<and> (t \<notin> {PStr (ascii ''noop''), PStr (ascii ''upper''), PStr (ascii ''lower'')}
        \<and> utf8_decode bs = Inr decoded \<longrightarrow> transform_bytes lib bs t = Inl ValueError)
   \<and> (t \<noteq> PStr (ascii ''noop'') \<and> utf8_decode bs = Inl de
        \<longrightarrow> transform_bytes lib bs t = Inl UnicodeDecodeError)
   \<and> (process lib raw ps = Inl e'
        \<longrightarrow> e' \<in> {ValueError, UnicodeDecodeError, UnicodeEncodeError} \<and> \<not> is_PipelineError e')
   \<and> (fst (load_validate_hash lib w (arg_inputs a) (arg_config a) (arg_version a)) = Inr loaded
        \<and> read_inputs (files w) (input_paths loaded) [] = Inr raw_inputs
        \<and> process lib raw_inputs (config loaded) = Inl e''
        \<longrightarrow> main lib w a = 3)
   \<and> (main lib w a = 2 \<longleftrightarrow> (\<exists>x. main_try lib w a = Inl x \<and> is_PipelineError x))
   \<and> (main lib w a = 3 \<longleftrightarrow> (\<exists>x. main_try lib w a = Inl x \<and> \<not> is_PipelineError x))"
proof -
  have 1: "fst (load_validate_hash lib w (arg_inputs a) (arg_config a) (arg_version a)) = Inl e
      \<and> e \<in> {InputValidationError, ConfigError} \<longrightarrow> main lib w a = 2"
    using main_load_fails[of lib w a e] by auto
  have 2: "\<not> dict_has ps (ascii ''transform'') \<or> \<not> dict_has ps (ascii ''seed'')
        \<longrightarrow> process lib raw ps = Inl ValueError"
    using process_missing_parameter[of ps lib raw] by blast
  have 3: "t \<notin> {PStr (ascii ''noop''), PStr (ascii ''upper''), PStr (ascii ''lower'')}
        \<and> utf8_decode bs = Inr decoded \<longrightarrow> transform_bytes lib bs t = Inl ValueError"
    using transform_bytes_unsupported[of t bs decoded lib] by simp
  have 4: "t \<noteq> PStr (ascii ''noop'') \<and> utf8_decode bs = Inl de
        \<longrightarrow> transform_bytes lib bs t = Inl UnicodeDecodeError"
    using transform_bytes_undecodable[of t bs de lib] by simp
  have 5: "process lib raw ps = Inl e'
        \<longrightarrow> e' \<in> {ValueError, UnicodeDecodeError, UnicodeEncodeError} \<and> \<not> is_PipelineError e'"
    using process_error[of lib raw ps e'] by auto
  have 6: "fst (load_validate_hash lib w (arg_inputs a) (arg_config a) (arg_version a)) = Inr loaded
        \<and> read_inputs (files w) (input_paths loaded) [] = Inr raw_inputs
        \<and> process lib raw_inputs (config loaded) = Inl e''
        \<longrightarrow> main lib w a = 3"
    using main_process_fails[of lib w a loaded raw_inputs e''] by blast
  from 1 2 3 4 5 6 main_exit_iff[of lib w a] show ?thesis
    by blast
qed

lemma example_load_bad:
  \<open>fst (load_validate_hash example_lib example_world [ascii ''/in/bad.bin'']
          (ascii ''/cfg/upper.json'') (ascii ''1.0''))
     = Inr \<lparr>input_paths = [ascii ''/in/bad.bin''],
            input_hashes = [(ascii ''/in/bad.bin'', sha256_hex example_lib [CHR 0xFF])],
            config = [(ascii ''transform'', PStr (ascii ''upper'')), (ascii ''seed'', PInt 1)],
            config_hash = sha256_hex example_lib ''{"seed":1,"transform":"upper"}'',
            pipeline_version = ascii ''1.0''\<rparr>\<close>
  using load_validate_hash_ok[of "ascii ''1.0''" "[ascii ''/in/bad.bin'']"
      example_world example_lib "ascii ''/cfg/upper.json''", OF _ _ _ _ example_check_upper
      example_config_hash]
  by (simp add: strip_example_version example_resolve example_parse is_file_def
      example_files_simps file_bytes_def)

lemma example_process_bad:
  "process example_lib [(ascii ''/in/bad.bin'', [CHR 0xFF])]
     [(ascii ''transform'', PStr (ascii ''upper'')), (ascii ''seed'', PInt 1)]
     = Inl UnicodeDecodeError"
  by (simp add: process_with_transform dict_has_def transform_bytes_def utf8_decode.simps
      lead_info_def)

text \<open>
  C5 as stated fails: an input file that is not valid UTF-8, under
  \<^verbatim>\<open>transform = "upper"\<close>, makes \<open>process\<close> fail with the invalid-byte-decoding error
  and \<open>main\<close> return 3, not 2.
\<close>

theorem main_exit_codes_counterexample:
  "process example_lib [(ascii ''/in/bad.bin'', [CHR 0xFF])]
     [(ascii ''transform'', PStr (ascii ''upper'')), (ascii ''seed'', PInt 1)]
     = Inl UnicodeDecodeError
   \<and> main example_lib example_world example_args_bad = 3"
  using main_process_fails[of example_lib example_world example_args_bad _
      "[(ascii ''/in/bad.bin'', [CHR 0xFF])]" UnicodeDecodeError]
  by (simp add: example_args_bad_def example_load_bad example_process_bad example_files_simps)

theorem main_exit_codes_witness:
  "main example_lib example_world example_args_missing = 2
   \<and> process example_lib [(ascii ''/in/a.txt'', ''Hello World'')]
        [(ascii ''transform'', PStr (ascii ''upper''))] = Inl ValueError
   \<and> \<not> is_PipelineError ValueError
   \<and> transform_bytes example_lib ''Hello World'' (PStr (ascii ''mixed'')) = Inl ValueError
   \<and> main example_lib example_world example_args_bad = 3"
proof -
  let ?bad = "[(ascii ''/in/bad.bin'', [CHR 0xFF])]"
  have missing: "fst (load_validate_hash example_lib example_world (arg_inputs example_args_missing)
        (arg_config example_args_missing) (arg_version example_args_missing))
      = Inl InputValidationError"
    using load_validate_hash_paths_fail[of "ascii ''1.0''" example_world
        "[ascii ''/in/missing.txt'']" example_lib "ascii ''/cfg/upper.json''"]
    by (simp add: example_args_missing_def strip_example_version example_resolve is_file_def
        example_files_simps)
  obtain loaded where loaded:
    "fst (load_validate_hash example_lib example_world (arg_inputs example_args_bad)
        (arg_config example_args_bad) (arg_version example_args_bad)) = Inr loaded"
    "input_paths loaded = [ascii ''/in/bad.bin'']"
    "config loaded = [(ascii ''transform'', PStr (ascii ''upper'')), (ascii ''seed'', PInt 1)]"
    by (simp add: example_args_bad_def example_load_bad)
  have rd: "read_inputs (files example_world) (input_paths loaded) [] = Inr ?bad"
    by (simp add: loaded(2) example_files_simps)
  have pr: "process example_lib ?bad (config loaded) = Inl UnicodeDecodeError"
    by (simp add: loaded(3) example_process_bad)
  show ?thesis
    using main_exit_codes[where lib = example_lib and w = example_world
        and a = example_args_missing and e = InputValidationError
        and ps = "[(ascii ''transform'', PStr (ascii ''upper''))]"
        and raw = "[(ascii ''/in/a.txt'', ''Hello World'')]" and e' = ValueError
        and t = "PStr (ascii ''mixed'')" and bs = "''Hello World''"
        and decoded = "ascii ''Hello World''"]
      main_exit_codes[where lib = example_lib and w = example_world and a = example_args_bad
        and loaded = loaded and raw_inputs = ?bad and e'' = UnicodeDecodeError
        and t = "PStr (ascii ''upper'')" and bs = "[CHR 0xFF]" and de = UnicodeDecodeError]
      missing loaded(1) rd pr
    by (simp add: dict_has_def utf8_decode_hello)
qed

section \<open>The canonical encoder and the content hasher\<close>

lemma sequence_Inr_iff:
  "(\<exists>xs. sequence rs = Inr xs) \<longleftrightarrow> (\<forall>r\<in>set rs. \<exists>x. r = Inr x)"
  by (induction rs) (auto split: sum.splits)

lemma sequence_Inl: "sequence rs = Inl e \<Longrightarrow> Inl e \<in> set rs"
  by (induction rs) (auto split: sum.splits)

lemma json_encode_error: "json_encode v = Inl e \<Longrightarrow> e = TypeError"
proof (induction v arbitrary: e)
  case (PList xs)
  from PList.prems have "sequence (map json_encode xs) = Inl e"
    by (auto split: sum.splits)
  then obtain x where "x \<in> set xs" "json_encode x = Inl e"
    by (auto dest!: sequence_Inl)
  then show ?case by (rule PList.IH)
next
  case (PDict d)
  let ?f = "\<lambda>(k, v). case json_encode v of
              Inl e \<Rightarrow> Inl e | Inr s \<Rightarrow> Inr (json_string k @ ascii '':'' @ s)"
  from PDict.prems have "sequence (map ?f (sort_key fst d)) = Inl e"
    by (auto split: sum.splits)
  then obtain k v where kv: "(k, v) \<in> set d" "json_encode v = Inl e"
    by (auto dest!: sequence_Inl split: sum.splits)
  from kv(1) have "v \<in> Basic_BNFs.snds (k, v)" by simp
  from PDict.IH[OF kv(1) this kv(2)] show ?case .
qed simp_all

lemma json_encode_Inr_iff: "(\<exists>s. json_encode v = Inr s) \<longleftrightarrow> representable v"
proof (induction v)
  case (PList xs)
  have "(\<exists>s. json_encode (PList xs) = Inr s)
      \<longleftrightarrow> (\<exists>parts. sequence (map json_encode xs) = Inr parts)"
    by (auto split: sum.splits)
  also have "\<dots> \<longleftrightarrow> (\<forall>x\<in>set xs. \<exists>s. json_encode x = Inr s)"
    by (simp add: sequence_Inr_iff)
  also have "\<dots> \<longleftrightarrow> (\<forall>x\<in>set xs. representable x)"
    using PList.IH by blast
  finally show ?case by (simp add: list_all_iff)
next
  case (PDict d)
  let ?f = "\<lambda>(k, v). case json_encode v of
              Inl e \<Rightarrow> Inl e | Inr s \<Rightarrow> Inr (json_string k @ ascii '':'' @ s)"
  have "(\<exists>s. json_encode (PDict d) = Inr s)
      \<longleftrightarrow> (\<exists>parts. sequence (map ?f (sort_key fst d)) = Inr parts)"
    by (auto split: sum.splits)
  also have "\<dots> \<longleftrightarrow> (\<forall>kv\<in>set d. \<exists>x. ?f kv = Inr x)"
    by (simp add: sequence_Inr_iff)
  also have "\<dots> \<longleftrightarrow> (\<forall>kv\<in>set d. \<exists>s. json_encode (snd kv) = Inr s)"
  proof -
    have "(\<exists>x. ?f kv = Inr x) \<longleftrightarrow> (\<exists>s. json_encode (snd kv) = Inr s)" for kv
      by (cases kv; cases "json_encode (snd kv)") auto
    then show ?thesis by blast
  qed
  also have "\<dots> \<longleftrightarrow> (\<forall>kv\<in>set d. representable (snd kv))"
  proof -
    have "(\<exists>s. json_encode (snd kv) = Inr s) \<longleftrightarrow> representable (snd kv)"
      if "kv \<in> set d" for kv
      using PDict.IH[of kv "snd kv"] that by (cases kv) simp
    then show ?thesis by blast
  qed
  finally show ?case by (simp add: list_all_iff)
qed simp_all

text \<open>
  C7, as the code has it. On the values modelled here \<open>canonical_json_dumps\<close>
  returns a text exactly for those built from \<^verbatim>\<open>None\<close>, booleans, integers,
  floats, strings, lists and dicts with string keys. For a value in which a
  \<^verbatim>\<open>bytes\<close> object occurs it fails, and the exception is the built-in
  \<^verbatim>\<open>TypeError\<close> of \<^verbatim>\<open>json.dumps\<close>; no exception class of the program is called
  \<^verbatim>\<open>EncodingError\<close>. The limits of the interpreter on nesting depth and on the
  length of a printed integer, and containers that contain themselves, are not
  modelled.
\<close>

theorem canonical_json_dumps_errors:
  "(representable v \<longrightarrow> (\<exists>s. canonical_json_dumps v = Inr s))
   \<and> (\<not> representable v \<longrightarrow> canonical_json_dumps v = Inl TypeError)
   \<and> exc_name x \<noteq> ''EncodingError''"
proof -
  have "canonical_json_dumps v = Inl TypeError" if "\<not> representable v"
  proof (cases "json_encode v")
    case (Inl e)
    then show ?thesis
      using json_encode_error[OF Inl] by (simp add: canonical_json_dumps_def)
  next
    case (Inr s)
    then show ?thesis
      using json_encode_Inr_iff[of v] that by auto
  qed
  moreover have "exc_name x \<noteq> ''EncodingError''"
    by (cases x) simp_all
  ultimately show ?thesis
    using json_encode_Inr_iff[of v] by (auto simp: canonical_json_dumps_def)
qed

text \<open>
  C7 as stated fails: a dict that holds a \<^verbatim>\<open>bytes\<close> object is not
  JSON-representable and the failure is a \<^verbatim>\<open>TypeError\<close>, not an \<^verbatim>\<open>EncodingError\<close>.
\<close>

theorem canonical_json_dumps_errors_counterexample:
  "canonical_json_dumps (PDict [(ascii ''blob'', PBytes ''x'')]) = Inl TypeError
   \<and> exc_name TypeError \<noteq> ''EncodingError''"
  by (simp add: canonical_json_dumps_def)

theorem canonical_json_dumps_errors_witness:
  \<open>canonical_json_dumps
      (PDict [(ascii ''transform'', PStr (ascii ''upper'')), (ascii ''seed'', PInt 1)])
     = Inr (ascii ''{"seed":1,"transform":"upper"}'')
   \<and> representable
      (PDict [(ascii ''transform'', PStr (ascii ''upper'')), (ascii ''seed'', PInt 1)])
   \<and> \<not> representable (PList [PInt 1, PBytes ''x''])
   \<and> canonical_json_dumps (PList [PInt 1, PBytes ''x'']) = Inl TypeError\<close>
  using canonical_json_dumps_errors
      [of "PDict [(ascii ''transform'', PStr (ascii ''upper'')), (ascii ''seed'', PInt 1)]"]
    canonical_json_dumps_errors [of "PList [PInt 1, PBytes ''x'']"]
  by (simp add: example_config_json)







end
